theory Spec2Isabelle
  imports Complex_Main
begin

section \<open>Data model of \<open>LUTInterpolator\<close>\<close>

text \<open>
  A Python float is modelled by the real number it denotes (NaN and the infinities are not
  modelled), a Python int by an \<open>int\<close>. Comparisons and \<open>abs\<close> of floats are exact.
  Forward prediction is modelled in exact arithmetic. In length estimation a choice among
  planes or lengths hangs on rounded results, so there the rounded operations are taken from
  an arithmetic \<open>A\<close>: \<open>double_arith\<close> is IEEE binary64 with round-to-nearest-even,
  \<open>exact_arith\<close> computes without rounding. A pandas table with the normalised columns
  \<open>gm_id\<close>, \<open>length_nm\<close>, \<open>value\<close> is a list of rows. A Python \<open>dict\<close> keyed by quantity
  name is a map; a \<open>dict\<close> keyed by the bias value is an association list in insertion
  order, read with \<open>dict_get\<close> and written with \<open>dict_set\<close>.
\<close>

record row =
  gm_id :: real
  length_nm :: real
  val :: real

type_synonym table = "row list"

text \<open>A row of a CSV as read by pandas: a cell that is missing is \<open>None\<close>.\<close>

record raw_row =
  raw_length_nm :: "real option"
  raw_ngm_id :: "real option"
  raw_quantity :: "real option"

type_synonym interpolant = "real \<Rightarrow> real \<Rightarrow> real"

datatype msg =
    Unknown_quantity
  | No_interpolators
  | Gmro_not_available
  | No_length_information
  | No_gmro_at_plane real
  | Min_of_empty_sequence

datatype error = ValueError msg | KeyError | ZeroDivisionError | FitError

text \<open>
  The two library functions the engine calls are parameters of the model.
  \<open>RBFInterpolator(X, y, kernel, epsilon)\<close> of scipy either raises (\<open>None\<close>) or gives a
  function of a query point; \<open>np.interp(x, xp, fp)\<close> of numpy gives a number.
\<close>

type_synonym rbf_ctor =
  "(real \<times> real) list \<Rightarrow> real list \<Rightarrow> string \<Rightarrow> real option \<Rightarrow> interpolant option"

type_synonym interp1d = "real \<Rightarrow> real list \<Rightarrow> real list \<Rightarrow> real"

record engine =
  kernel' :: string
  epsilon :: "real option"
  quantities :: "string list"
  data :: "string \<rightharpoonup> (real \<times> table) list"
  rbf :: "string \<rightharpoonup> (real \<times> interpolant) list"
  lengths :: "int list option"

datatype estimate = Discrete int | Both real int

subsection \<open>Dictionaries, division, \<open>min\<close> with a key, \<open>int\<close>\<close>

definition dict_get :: "('k \<times> 'v) list \<Rightarrow> 'k \<Rightarrow> error + 'v" where
  "dict_get d k = (case map_of d k of None \<Rightarrow> Inl KeyError | Some v \<Rightarrow> Inr v)"

fun dict_set :: "'k \<Rightarrow> 'v \<Rightarrow> ('k \<times> 'v) list \<Rightarrow> ('k \<times> 'v) list" where
  "dict_set k v [] = [(k, v)]"
| "dict_set k v (p # ps) = (if fst p = k then (k, v) # ps else p # dict_set k v ps)"

definition py_div :: "real \<Rightarrow> real \<Rightarrow> error + real" where
  "py_div a b = (if b = 0 then Inl ZeroDivisionError else Inr (a / b))"

text \<open>\<open>int(x)\<close> of a float truncates toward zero.\<close>

definition py_int :: "real \<Rightarrow> int" where
  "py_int x = (if 0 \<le> x then \<lfloor>x\<rfloor> else \<lceil>x\<rceil>)"

text \<open>
  \<open>min(xs, key=f)\<close>: the first element is the candidate; a later element replaces it
  only when its key is strictly smaller. An empty sequence raises.
\<close>

fun min_loop :: "('a \<Rightarrow> error + real) \<Rightarrow> 'a \<Rightarrow> real \<Rightarrow> 'a list \<Rightarrow> error + 'a" where
  "min_loop key best kb [] = Inr best"
| "min_loop key best kb (x # xs) =
     (case key x of
        Inl err \<Rightarrow> Inl err
      | Inr k \<Rightarrow> if k < kb then min_loop key x k xs else min_loop key best kb xs)"

fun py_min_key :: "('a \<Rightarrow> error + real) \<Rightarrow> 'a list \<Rightarrow> error + 'a" where
  "py_min_key key [] = Inl (ValueError Min_of_empty_sequence)"
| "py_min_key key (x # xs) =
     (case key x of Inl err \<Rightarrow> Inl err | Inr k \<Rightarrow> min_loop key x k xs)"

subsection \<open>Construction and loading\<close>

definition empty_planes :: "string list \<Rightarrow> (string \<rightharpoonup> (real \<times> 'v) list)" where
  "empty_planes qs = map_of (map (\<lambda>q. (q, [])) qs)"

definition init :: "string \<Rightarrow> real option \<Rightarrow> engine" where
  "init k eps =
     \<lparr>kernel' = k, epsilon = eps, quantities = [''id_w'', ''gmro'', ''ft''],
      data = empty_planes [''id_w'', ''gmro'', ''ft''],
      rbf = empty_planes [''id_w'', ''gmro'', ''ft''],
      lengths = None\<rparr>"

text \<open>\<open>df[[...]].dropna()\<close>: a row with a missing cell is dropped.\<close>

fun dropna :: "raw_row list \<Rightarrow> table" where
  "dropna [] = []"
| "dropna (r # rs) =
     (case (raw_ngm_id r, raw_length_nm r, raw_quantity r) of
        (Some g, Some l, Some v) \<Rightarrow> \<lparr>gm_id = g, length_nm = l, val = v\<rparr> # dropna rs
      | _ \<Rightarrow> dropna rs)"

definition append_data :: "raw_row list \<Rightarrow> real \<Rightarrow> string \<Rightarrow> engine \<Rightarrow> error + engine" where
  "append_data df vds quantity_name e =
     (case data e quantity_name of
        None \<Rightarrow> Inl KeyError
      | Some planes \<Rightarrow>
          (case map_of planes vds of
             None \<Rightarrow> Inr (e\<lparr>data := (data e)(quantity_name \<mapsto> dict_set vds (dropna df) planes)\<rparr>)
           | Some old \<Rightarrow>
               Inr (e\<lparr>data := (data e)(quantity_name \<mapsto> dict_set vds (old @ dropna df) planes)\<rparr>)))"

subsection \<open>Forward prediction\<close>

definition available_vds :: "(real \<times> 'v) list \<Rightarrow> real list" where
  "available_vds planes = sort (map fst planes)"

fun find_bounds :: "real list \<Rightarrow> real \<Rightarrow> (real \<times> real) option" where
  "find_bounds (a # b # rest) vds =
     (if a \<le> vds \<and> vds \<le> b then Some (a, b) else find_bounds (b # rest) vds)"
| "find_bounds _ vds = None"

definition plane_at :: "(real \<times> interpolant) list \<Rightarrow> real \<Rightarrow> real \<Rightarrow> real \<Rightarrow> error + real" where
  "plane_at planes v g l = (case dict_get planes v of Inl err \<Rightarrow> Inl err | Inr f \<Rightarrow> Inr (f g l))"

definition interp_in_vds :: "engine \<Rightarrow> string \<Rightarrow> real \<Rightarrow> real \<Rightarrow> real \<Rightarrow> error + real" where
  "interp_in_vds e quantity g vds l =
     (case rbf e quantity of
        None \<Rightarrow> Inl KeyError
      | Some planes \<Rightarrow>
          let avail = available_vds planes in
          if avail = [] then Inl (ValueError No_interpolators)
          else if map_of planes vds \<noteq> None then plane_at planes vds g l
          else if vds < hd avail then plane_at planes (hd avail) g l
          else if vds > last avail then plane_at planes (last avail) g l
          else
            (case find_bounds avail vds of
               None \<Rightarrow> plane_at planes (last avail) g l
             | Some (v1, v2) \<Rightarrow>
                 (case plane_at planes v1 g l of
                    Inl err \<Rightarrow> Inl err
                  | Inr y1 \<Rightarrow>
                      (case plane_at planes v2 g l of
                         Inl err \<Rightarrow> Inl err
                       | Inr y2 \<Rightarrow>
                           (case py_div (vds - v1) (v2 - v1) of
                              Inl err \<Rightarrow> Inl err
                            | Inr t \<Rightarrow> Inr (y1 + t * (y2 - y1)))))))"

definition predict :: "engine \<Rightarrow> string \<Rightarrow> real \<Rightarrow> real \<Rightarrow> real \<Rightarrow> error + real" where
  "predict e quantity g vds l =
     (if quantity \<notin> set (quantities e) then Inl (ValueError Unknown_quantity)
      else interp_in_vds e quantity g vds l)"

subsection \<open>Building the interpolators\<close>

text \<open>
  The inner loop of \<open>build_interpolators\<close> over the planes of one quantity. \<open>all_lengths\<close>
  is a Python set, kept here as a list without duplicates; it is only ever sorted.
  A constructor that raises leaves \<open>self.rbf\<close> as built so far.
\<close>

fun build_planes ::
  "rbf_ctor \<Rightarrow> string \<Rightarrow> real option \<Rightarrow> string \<Rightarrow> (real \<times> table) list \<Rightarrow>
   (string \<rightharpoonup> (real \<times> interpolant) list) \<Rightarrow> real list \<Rightarrow>
   error option \<times> (string \<rightharpoonup> (real \<times> interpolant) list) \<times> real list" where
  "build_planes R k eps q [] rbm all_lengths = (None, rbm, all_lengths)"
| "build_planes R k eps q ((vds, df) # rest) rbm all_lengths =
     (let all_lengths' = remdups (all_lengths @ map length_nm df) in
      case R (map (\<lambda>r. (gm_id r, length_nm r)) df) (map val df) k eps of
        None \<Rightarrow> (Some FitError, rbm, all_lengths')
      | Some f \<Rightarrow>
          (case rbm q of
             None \<Rightarrow> (Some KeyError, rbm, all_lengths')
           | Some rb \<Rightarrow> build_planes R k eps q rest (rbm(q \<mapsto> dict_set vds f rb)) all_lengths'))"

fun build_quantities ::
  "rbf_ctor \<Rightarrow> string \<Rightarrow> real option \<Rightarrow> (string \<rightharpoonup> (real \<times> table) list) \<Rightarrow> string list \<Rightarrow>
   (string \<rightharpoonup> (real \<times> interpolant) list) \<Rightarrow> real list \<Rightarrow>
   error option \<times> (string \<rightharpoonup> (real \<times> interpolant) list) \<times> real list" where
  "build_quantities R k eps dat [] rbm all_lengths = (None, rbm, all_lengths)"
| "build_quantities R k eps dat (q # qs) rbm all_lengths =
     (case dat q of
        None \<Rightarrow> (Some KeyError, rbm, all_lengths)
      | Some planes \<Rightarrow>
          (case build_planes R k eps q planes rbm all_lengths of
             (Some err, rbm', all_lengths') \<Rightarrow> (Some err, rbm', all_lengths')
           | (None, rbm', all_lengths') \<Rightarrow> build_quantities R k eps dat qs rbm' all_lengths'))"

text \<open>
  \<open>build_interpolators\<close> returns the engine as the call leaves it, and the exception if
  one was raised; \<open>self.lengths\<close> is assigned only after the loops, and only when some
  length was seen.
\<close>

definition build_interpolators :: "rbf_ctor \<Rightarrow> engine \<Rightarrow> engine \<times> error option" where
  "build_interpolators R e =
     (case build_quantities R (kernel' e) (epsilon e) (data e) (quantities e)
             (empty_planes (quantities e)) [] of
        (Some err, rbm, all_lengths) \<Rightarrow> (e\<lparr>rbf := rbm\<rparr>, Some err)
      | (None, rbm, all_lengths) \<Rightarrow>
          (if all_lengths \<noteq> []
           then (e\<lparr>rbf := rbm, lengths := Some (sort (map py_int all_lengths))\<rparr>, None)
           else (e\<lparr>rbf := rbm\<rparr>, None)))"

subsection \<open>Floating-point arithmetic\<close>

text \<open>
  The operations of Python floats that round: \<open>a - b\<close>, \<open>a + b\<close>, \<open>a * b\<close>, \<open>a / b\<close>
  for a divisor other than zero, and the conversion of an int.
\<close>

record arith =
  fsub :: "real \<Rightarrow> real \<Rightarrow> real"
  fadd :: "real \<Rightarrow> real \<Rightarrow> real"
  fmul :: "real \<Rightarrow> real \<Rightarrow> real"
  fdiv :: "real \<Rightarrow> real \<Rightarrow> real"
  ffloat :: "int \<Rightarrow> real"

definition exact_arith :: arith where
  "exact_arith =
     \<lparr>fsub = (\<lambda>a b. a - b), fadd = (\<lambda>a b. a + b), fmul = (\<lambda>a b. a * b),
      fdiv = (\<lambda>a b. a / b), ffloat = real_of_int\<rparr>"

text \<open>
  IEEE binary64: a real other than zero with binary exponent \<open>e\<close> is rounded to the nearest
  multiple of \<open>2 ^ (e - 52)\<close>, a tie going to the even multiple; below the normal range the
  spacing is that of exponent \<open>-1022\<close>. Overflow to infinity is not modelled.
\<close>

definition round_half_even :: "real \<Rightarrow> int" where
  "round_half_even y =
     (let f = \<lfloor>y\<rfloor> in
      if y - of_int f < 1 / 2 then f
      else if 1 / 2 < y - of_int f then f + 1
      else if even f then f else f + 1)"

definition ieee_round :: "real \<Rightarrow> real" where
  "ieee_round x =
     (if x = 0 then 0
      else
        let e = max \<lfloor>log 2 \<bar>x\<bar>\<rfloor> (- 1022);
            u = 2 powi (e - 52)
        in of_int (round_half_even (x / u)) * u)"

definition double_arith :: arith where
  "double_arith =
     \<lparr>fsub = (\<lambda>a b. ieee_round (a - b)), fadd = (\<lambda>a b. ieee_round (a + b)),
      fmul = (\<lambda>a b. ieee_round (a * b)), fdiv = (\<lambda>a b. ieee_round (a / b)),
      ffloat = (\<lambda>n. ieee_round (real_of_int n))\<rparr>"

text \<open>The float that the literal \<open>1e-12\<close> denotes; it lies below \<open>1 / 10 ^ 12\<close>.\<close>

definition double_1e_12 :: real where
  "double_1e_12 = 4951760157141521 / 2 ^ 92"

text \<open>Float division: a zero divisor raises.\<close>

definition float_div :: "arith \<Rightarrow> real \<Rightarrow> real \<Rightarrow> error + real" where
  "float_div A a b = (if b = 0 then Inl ZeroDivisionError else Inr (fdiv A a b))"

subsection \<open>Length estimation\<close>

text \<open>
  Step 1: the raw gmro plane nearest to the requested bias, by the computed
  \<open>abs(x - vds_req)\<close>.
\<close>

definition snap_plane :: "arith \<Rightarrow> (real \<times> table) list \<Rightarrow> real \<Rightarrow> error + real" where
  "snap_plane A planes vds_req =
     py_min_key (\<lambda>x. Inr \<bar>fsub A x vds_req\<bar>) (sort (map fst planes))"

text \<open>
  Step 2: for each length of \<open>self.lengths\<close>, the rows of the plane with exactly that
  length, sorted by \<open>gm_id\<close>, interpolated at the query; a length without rows is skipped.
  The sort is taken stable; pandas leaves the order of rows with equal \<open>gm_id\<close> open, and
  no property below depends on it.
\<close>

fun reconstruct ::
  "interp1d \<Rightarrow> real \<Rightarrow> table \<Rightarrow> int list \<Rightarrow> (int \<times> real) list \<Rightarrow> (int \<times> real) list" where
  "reconstruct I g df_plane [] gmro_pred = gmro_pred"
| "reconstruct I g df_plane (L # Ls) gmro_pred =
     (let df_L = filter (\<lambda>r. length_nm r = real_of_int L) df_plane in
      if df_L = [] then reconstruct I g df_plane Ls gmro_pred
      else
        let df_L' = sort_key gm_id df_L;
            gmro_L = I g (map gm_id df_L') (map val df_L')
        in reconstruct I g df_plane Ls (dict_set L gmro_L gmro_pred))"

text \<open>The function up to the check that some length was reconstructed.\<close>

definition gmro_pred_at ::
  "arith \<Rightarrow> interp1d \<Rightarrow> engine \<Rightarrow> real \<Rightarrow> real \<Rightarrow> error + (int \<times> real) list" where
  "gmro_pred_at A I e g vds =
     (case data e ''gmro'' of
        None \<Rightarrow> Inl KeyError
      | Some planes \<Rightarrow>
          if planes = [] then Inl (ValueError Gmro_not_available)
          else
            (case lengths e of
               None \<Rightarrow> Inl (ValueError No_length_information)
             | Some Ls \<Rightarrow>
                 (case snap_plane A planes vds of
                    Inl err \<Rightarrow> Inl err
                  | Inr vds_plane \<Rightarrow>
                      (case dict_get planes vds_plane of
                         Inl err \<Rightarrow> Inl err
                       | Inr df_plane \<Rightarrow>
                           let gmro_pred = reconstruct I g df_plane Ls [] in
                           if gmro_pred = [] then Inl (ValueError (No_gmro_at_plane vds_plane))
                           else Inr gmro_pred))))"

definition brackets :: "real \<Rightarrow> real \<Rightarrow> real \<Rightarrow> bool" where
  "brackets g1 g2 m = ((g1 \<le> m \<and> m \<le> g2) \<or> (g2 \<le> m \<and> m \<le> g1))"

text \<open>
  Step 4. The guard compares the computed \<open>abs(g2 - g1)\<close> with the float \<open>1e-12\<close>; the
  divisor is the same computed difference.
\<close>

definition continuous_estimate ::
  "arith \<Rightarrow> int \<Rightarrow> int \<Rightarrow> real \<Rightarrow> real \<Rightarrow> real \<Rightarrow> error + real" where
  "continuous_estimate A L1 L2 g1 g2 m =
     (if \<bar>fsub A g2 g1\<bar> < double_1e_12 then Inr (fmul A (1 / 2) (ffloat A (L1 + L2)))
      else
        (case float_div A (fsub A m g1) (fsub A g2 g1) of
           Inl err \<Rightarrow> Inl err
         | Inr t \<Rightarrow> Inr (fadd A (ffloat A L1) (fmul A t (ffloat A (L2 - L1))))))"

text \<open>Steps 3 to 5: the scan over adjacent pairs of \<open>lengths_ordered\<close>.\<close>

fun find_bracket ::
  "arith \<Rightarrow> (int \<times> real) list \<Rightarrow> real \<Rightarrow> int list \<Rightarrow> error + (real \<times> int) option" where
  "find_bracket A gmro_pred m (L1 # L2 # rest) =
     (case dict_get gmro_pred L1 of
        Inl err \<Rightarrow> Inl err
      | Inr g1 \<Rightarrow>
          (case dict_get gmro_pred L2 of
             Inl err \<Rightarrow> Inl err
           | Inr g2 \<Rightarrow>
               if brackets g1 g2 m then
                 (case continuous_estimate A L1 L2 g1 g2 m of
                    Inl err \<Rightarrow> Inl err
                  | Inr L_est \<Rightarrow> Inr (Some (L_est, max L1 L2)))
               else find_bracket A gmro_pred m (L2 # rest)))"
| "find_bracket A gmro_pred m _ = Inr None"

text \<open>The adjacent pairs of a list, in order: the pairs the scan visits.\<close>

definition adjacent_pairs :: "'a list \<Rightarrow> ('a \<times> 'a) list" where
  "adjacent_pairs xs = zip xs (tl xs)"

text \<open>
  No adjacent pair of the given lengths has reconstructed values that bracket \<open>m\<close>:
  the scan passes over all of them without a match.
\<close>

definition no_bracket_in :: "(int \<times> real) list \<Rightarrow> real \<Rightarrow> int list \<Rightarrow> bool" where
  "no_bracket_in gmro_pred m Ls =
     list_all (\<lambda>(a, b). case (map_of gmro_pred a, map_of gmro_pred b) of
                            (Some ga, Some gb) \<Rightarrow> \<not> brackets ga gb m
                          | _ \<Rightarrow> True)
       (adjacent_pairs Ls)"

definition returned :: "bool \<Rightarrow> real \<Rightarrow> int \<Rightarrow> estimate" where
  "returned return_continuous L_est L_disc =
     (if return_continuous then Both L_est L_disc else Discrete L_disc)"

text \<open>The key of the fallback: the computed \<open>abs(gmro_pred[L] - gmro_measured)\<close>.\<close>

definition gmro_distance :: "arith \<Rightarrow> (int \<times> real) list \<Rightarrow> real \<Rightarrow> int \<Rightarrow> error + real" where
  "gmro_distance A gmro_pred m L =
     (case dict_get gmro_pred L of Inl err \<Rightarrow> Inl err | Inr g \<Rightarrow> Inr \<bar>fsub A g m\<bar>)"

definition select_length ::
  "arith \<Rightarrow> (int \<times> real) list \<Rightarrow> real \<Rightarrow> bool \<Rightarrow> error + estimate" where
  "select_length A gmro_pred m return_continuous =
     (let lengths_ordered = sort (map fst gmro_pred) in
      case find_bracket A gmro_pred m lengths_ordered of
        Inl err \<Rightarrow> Inl err
      | Inr (Some (L_est, L_disc)) \<Rightarrow> Inr (returned return_continuous L_est L_disc)
      | Inr None \<Rightarrow>
          (case py_min_key (gmro_distance A gmro_pred m) lengths_ordered of
             Inl err \<Rightarrow> Inl err
           | Inr L_disc \<Rightarrow> Inr (returned return_continuous (ffloat A L_disc) L_disc)))"

definition estimate_length_from_gmro ::
  "arith \<Rightarrow> interp1d \<Rightarrow> engine \<Rightarrow> real \<Rightarrow> real \<Rightarrow> real \<Rightarrow> bool \<Rightarrow> error + estimate" where
  "estimate_length_from_gmro A I e g m vds return_continuous =
     (case gmro_pred_at A I e g vds of
        Inl err \<Rightarrow> Inl err
      | Inr gmro_pred \<Rightarrow> select_length A gmro_pred m return_continuous)"

subsection \<open>Library stand-ins and sample data for concrete runs\<close>

text \<open>
  \<open>np_interp\<close> follows numpy's documented \<open>interp\<close> on increasing sample points: the
  edge value outside the range, the sample value at a sample point, the chord between the
  two neighbouring samples otherwise. \<open>mean_rbf\<close> is a constructor that fails on an empty
  table and otherwise answers the mean of the values. The theorems below hold for every
  interpolation function and every constructor; these two only instantiate them.
\<close>

fun interp_from :: "real \<Rightarrow> (real \<times> real) list \<Rightarrow> real" where
  "interp_from x [] = 0"
| "interp_from x [(x0, y0)] = y0"
| "interp_from x ((x0, y0) # (x1, y1) # ps) =
     (if x1 \<le> x then interp_from x ((x1, y1) # ps)
      else if x = x0 then y0
      else (y1 - y0) / (x1 - x0) * (x - x0) + y0)"

definition np_interp :: interp1d where
  "np_interp x xp fp =
     (case zip xp fp of
        [] \<Rightarrow> 0
      | (x0, y0) # ps \<Rightarrow> if x < x0 then y0 else interp_from x ((x0, y0) # ps))"

definition mean_rbf :: rbf_ctor where
  "mean_rbf X y k eps =
     (if y = [] then None else Some (\<lambda>g l. sum_list y / real (length y)))"

definition raw :: "real \<Rightarrow> real \<Rightarrow> real \<Rightarrow> raw_row" where
  "raw l g v = \<lparr>raw_length_nm = Some l, raw_ngm_id = Some g, raw_quantity = Some v\<rparr>"

definition loaded :: "raw_row list \<Rightarrow> real \<Rightarrow> string \<Rightarrow> engine \<Rightarrow> engine" where
  "loaded df vds q e = (case append_data df vds q e of Inl err \<Rightarrow> e | Inr e' \<Rightarrow> e')"

definition sample_0p2 :: "raw_row list" where
  "sample_0p2 = [raw 500 10 20, raw 700 10 24, raw 500 20 28, raw 700 20 32]"

definition sample_0p4 :: "raw_row list" where
  "sample_0p4 = [raw 500 20 50, raw 700 10 40, raw 500 10 30, raw 700 20 60]"

definition sample_engine :: engine where
  "sample_engine =
     fst (build_interpolators mean_rbf
       (loaded sample_0p4 (2 / 5) ''gmro''
         (loaded sample_0p2 (1 / 5) ''gmro'' (init ''thin_plate_spline'' None))))"

definition offgrid_rows :: "raw_row list" where
  "offgrid_rows =
     [raw (1001 / 2) 10 20, raw (1401 / 2) 10 24, raw (1001 / 2) 20 28, raw (1401 / 2) 20 32]"

definition offgrid_engine :: engine where
  "offgrid_engine =
     fst (build_interpolators mean_rbf
       (loaded offgrid_rows (1 / 4) ''gmro''
         (init ''thin_plate_spline'' None)))"

definition flat_engine :: engine where
  "flat_engine =
     fst (build_interpolators mean_rbf
       (loaded [raw 500 10 30, raw 700 10 30, raw 500 20 50, raw 700 20 60] (1 / 4) ''gmro''
         (init ''thin_plate_spline'' None)))"

text \<open>
  Engines whose figures are floats exactly: planes at the floats \<open>0.15\<close> and \<open>0.65\<close>;
  values \<open>30.0\<close> and the next float above it; values \<open>2 ** -200\<close> and \<open>1e-12\<close>. Every
  plane has four samples that are not on a line.
\<close>

definition tie_engine :: engine where
  "tie_engine =
     fst (build_interpolators mean_rbf
       (loaded sample_0p4 (5854679515581645 / 2 ^ 53) ''gmro''
         (loaded sample_0p2 (5404319552844595 / 2 ^ 55) ''gmro''
           (init ''thin_plate_spline'' None))))"

definition near_engine :: engine where
  "near_engine =
     fst (build_interpolators mean_rbf
       (loaded [raw 500 10 30, raw 700 10 (8444249301319681 / 2 ^ 48), raw 500 20 50,
                raw 700 20 60] (1 / 4) ''gmro''
         (init ''thin_plate_spline'' None)))"

definition tiny_engine :: engine where
  "tiny_engine =
     fst (build_interpolators mean_rbf
       (loaded [raw 500 10 (1 / 2 ^ 200), raw 700 10 (4951760157141521 / 2 ^ 92), raw 500 20 1,
                raw 700 20 2] (1 / 4) ''gmro''
         (init ''thin_plate_spline'' None)))"

subsection \<open>Engines a client can reach\<close>

text \<open>
  The states of an engine that is constructed and then only loaded and rebuilt, with
  \<open>R\<close> as the fitting routine.
\<close>

inductive reachable :: "rbf_ctor \<Rightarrow> engine \<Rightarrow> bool" for R :: rbf_ctor where
  reachable_init: "reachable R (init k eps)"
| reachable_append:
    "reachable R e \<Longrightarrow> append_data df vds quantity_name e = Inr e' \<Longrightarrow> reachable R e'"
| reachable_build: "reachable R e \<Longrightarrow> reachable R (fst (build_interpolators R e))"

section \<open>Auxiliary facts and properties\<close>

lemma dict_get_key:
  "k \<in> fst ` set d \<Longrightarrow> \<exists>v. map_of d k = Some v \<and> dict_get d k = Inr v"
  by (cases "map_of d k") (auto simp: dict_get_def map_of_eq_None_iff)

lemma dict_get_Some: "map_of d k = Some v \<Longrightarrow> dict_get d k = Inr v"
  by (simp add: dict_get_def)

lemma min_loop_first_min:
  assumes "\<forall>x\<in>set xs. key x = Inr (f x)" and "sorted (best # xs)"
  shows "\<exists>p. min_loop key best (f best) xs = Inr p \<and> p \<in> set (best # xs) \<and>
           (\<forall>x\<in>set (best # xs). f p \<le> f x \<and> (f x = f p \<longrightarrow> p \<le> x))"
  using assms
proof (induction xs arbitrary: best)
  case Nil
  then show ?case by simp
next
  case (Cons x xs)
  have kx: "key x = Inr (f x)" using Cons.prems(1) by simp
  have keys: "\<forall>y\<in>set xs. key y = Inr (f y)" using Cons.prems(1) by simp
  show ?case
  proof (cases "f x < f best")
    case True
    have "sorted (x # xs)" using Cons.prems(2) by simp
    from Cons.IH [OF keys this] obtain p where
      p: "min_loop key x (f x) xs = Inr p" "p \<in> set (x # xs)"
         "\<forall>y\<in>set (x # xs). f p \<le> f y \<and> (f y = f p \<longrightarrow> p \<le> y)" by blast
    have "f p \<le> f x" using p(3) by simp
    with True have "f p < f best" by simp
    with p True kx show ?thesis by auto
  next
    case False
    have srt: "sorted (best # xs)" using Cons.prems(2) by simp
    from Cons.IH [OF keys srt] obtain p where
      p: "min_loop key best (f best) xs = Inr p" "p \<in> set (best # xs)"
         "\<forall>y\<in>set (best # xs). f p \<le> f y \<and> (f y = f p \<longrightarrow> p \<le> y)" by blast
    have le: "f p \<le> f x" using p(3) False by force
    have tie: "p \<le> x" if "f x = f p"
    proof -
      have "f best = f p" using p(3) False that by force
      then have "p \<le> best" using p(3) by simp
      moreover have "best \<le> x" using Cons.prems(2) by simp
      ultimately show ?thesis by simp
    qed
    from p le tie False kx show ?thesis by auto
  qed
qed

lemma py_min_key_first_min:
  assumes "xs \<noteq> []" and "\<forall>x\<in>set xs. key x = Inr (f x)" and "sorted xs"
  shows "\<exists>p. py_min_key key xs = Inr p \<and> p \<in> set xs \<and>
           (\<forall>x\<in>set xs. f p \<le> f x \<and> (f x = f p \<longrightarrow> p \<le> x))"
proof (cases xs)
  case Nil
  with assms show ?thesis by simp
next
  case (Cons a as)
  with assms min_loop_first_min [of as key f a] show ?thesis by simp
qed

lemma min_loop_error:
  "min_loop key best kb xs = Inl err \<Longrightarrow> \<exists>x\<in>set xs. key x = Inl err"
  by (induction xs arbitrary: best kb) (auto split: sum.splits if_splits)

lemma py_min_key_error:
  "py_min_key key xs = Inl err \<Longrightarrow>
   err = ValueError Min_of_empty_sequence \<or> (\<exists>x\<in>set xs. key x = Inl err)"
  by (cases xs) (auto split: sum.splits dest: min_loop_error)

lemma snap_plane_nearest:
  assumes "planes \<noteq> []"
  shows "\<exists>p. snap_plane A planes vds = Inr p \<and> p \<in> fst ` set planes \<and>
           (\<forall>x\<in>fst ` set planes.
              \<bar>fsub A p vds\<bar> \<le> \<bar>fsub A x vds\<bar> \<and>
              (\<bar>fsub A x vds\<bar> = \<bar>fsub A p vds\<bar> \<longrightarrow> p \<le> x))"
proof -
  have ne: "sort (map fst planes) \<noteq> []" using assms by (cases planes) (auto simp: sort_key_def)
  have "\<exists>p. py_min_key (\<lambda>x. Inr \<bar>fsub A x vds\<bar>) (sort (map fst planes)) = Inr p \<and>
          p \<in> set (sort (map fst planes)) \<and>
          (\<forall>x\<in>set (sort (map fst planes)).
             \<bar>fsub A p vds\<bar> \<le> \<bar>fsub A x vds\<bar> \<and>
             (\<bar>fsub A x vds\<bar> = \<bar>fsub A p vds\<bar> \<longrightarrow> p \<le> x))"
    by (rule py_min_key_first_min [OF ne]) simp_all
  then show ?thesis by (simp add: snap_plane_def)
qed

lemma adjacent_pairs_Cons2 [simp]:
  "adjacent_pairs (a # b # xs) = (a, b) # adjacent_pairs (b # xs)"
  by (simp add: adjacent_pairs_def)

lemma adjacent_pairs_single [simp]: "adjacent_pairs [a] = []"
  by (simp add: adjacent_pairs_def)

lemma adjacent_pairs_Nil [simp]: "adjacent_pairs [] = []"
  by (simp add: adjacent_pairs_def)

lemma find_bracket_skip:
  assumes "set pre \<subseteq> fst ` set gmro_pred" and "L1 \<in> fst ` set gmro_pred"
    and "no_bracket_in gmro_pred m (pre @ [L1])"
  shows "find_bracket A gmro_pred m (pre @ L1 # rest) = find_bracket A gmro_pred m (L1 # rest)"
  using assms
proof (induction pre)
  case Nil
  then show ?case by simp
next
  case (Cons a pre)
  obtain b bs where nxt: "pre @ [L1] = b # bs" by (cases "pre @ [L1]") auto
  then have nxt': "pre @ L1 # rest = b # bs @ rest"
    by (metis append_Cons append_assoc append_Nil)
  have b_key: "b \<in> fst ` set gmro_pred"
    using nxt Cons.prems(1,2) by (cases pre) auto
  obtain ga where ga: "map_of gmro_pred a = Some ga" "dict_get gmro_pred a = Inr ga"
    using dict_get_key [of a gmro_pred] Cons.prems(1) by auto
  obtain gb where gb: "map_of gmro_pred b = Some gb" "dict_get gmro_pred b = Inr gb"
    using dict_get_key [OF b_key] by auto
  have nb: "\<not> brackets ga gb m"
    using Cons.prems(3) ga(1) gb(1) nxt by (simp add: no_bracket_in_def)
  have rest_nb: "no_bracket_in gmro_pred m (pre @ [L1])"
    using Cons.prems(3) nxt by (simp add: no_bracket_in_def)
  have "find_bracket A gmro_pred m ((a # pre) @ L1 # rest) =
        find_bracket A gmro_pred m (pre @ L1 # rest)"
    by (simp add: nxt' ga(2) gb(2) nb)
  also have "\<dots> = find_bracket A gmro_pred m (L1 # rest)"
    using Cons.IH Cons.prems(1,2) rest_nb by simp
  finally show ?case .
qed

lemma find_bracket_none:
  assumes "set Ls \<subseteq> fst ` set gmro_pred" and "no_bracket_in gmro_pred m Ls"
  shows "find_bracket A gmro_pred m Ls = Inr None"
  using assms
proof (induction A gmro_pred m Ls rule: find_bracket.induct)
  case (1 A gmro_pred m L1 L2 rest)
  obtain g1 where g1: "map_of gmro_pred L1 = Some g1" "dict_get gmro_pred L1 = Inr g1"
    using dict_get_key [of L1 gmro_pred] "1.prems"(1) by auto
  obtain g2 where g2: "map_of gmro_pred L2 = Some g2" "dict_get gmro_pred L2 = Inr g2"
    using dict_get_key [of L2 gmro_pred] "1.prems"(1) by auto
  have nb: "\<not> brackets g1 g2 m"
    using "1.prems"(2) g1(1) g2(1) by (simp add: no_bracket_in_def)
  have "no_bracket_in gmro_pred m (L2 # rest)"
    using "1.prems"(2) by (simp add: no_bracket_in_def)
  then have "find_bracket A gmro_pred m (L2 # rest) = Inr None"
    using "1.IH" [OF g1(2) g2(2) nb] "1.prems"(1) by simp
  then show ?case using g1(2) g2(2) nb by simp
qed simp_all

lemma continuous_estimate_value:
  "continuous_estimate A L1 L2 g1 g2 m =
     (if \<bar>fsub A g2 g1\<bar> < double_1e_12 then Inr (fmul A (1 / 2) (ffloat A (L1 + L2)))
      else Inr (fadd A (ffloat A L1)
                  (fmul A (fdiv A (fsub A m g1) (fsub A g2 g1)) (ffloat A (L2 - L1)))))"
proof -
  have "double_1e_12 > 0" by (simp add: double_1e_12_def)
  then have "fsub A g2 g1 \<noteq> 0" if "\<not> \<bar>fsub A g2 g1\<bar> < double_1e_12"
    using that by auto
  then show ?thesis by (simp add: continuous_estimate_def float_div_def)
qed

lemma select_length_bracket:
  assumes ord: "sort (map fst gmro_pred) = pre @ L1 # L2 # post"
    and g1: "map_of gmro_pred L1 = Some g1" and g2: "map_of gmro_pred L2 = Some g2"
    and br: "brackets g1 g2 m"
    and first: "no_bracket_in gmro_pred m (pre @ [L1])"
  shows "\<exists>L_est. continuous_estimate A L1 L2 g1 g2 m = Inr L_est \<and>
           (\<forall>rc. select_length A gmro_pred m rc = Inr (returned rc L_est (max L1 L2)))"
proof -
  obtain L_est where ce: "continuous_estimate A L1 L2 g1 g2 m = Inr L_est"
    by (cases "\<bar>fsub A g2 g1\<bar> < double_1e_12") (simp_all add: continuous_estimate_value)
  have keys: "set (pre @ L1 # L2 # post) = fst ` set gmro_pred"
    using ord by (metis set_sort set_map)
  then have sub: "set pre \<subseteq> fst ` set gmro_pred" and k1: "L1 \<in> fst ` set gmro_pred"
    by auto
  have "find_bracket A gmro_pred m (pre @ L1 # L2 # post) =
        find_bracket A gmro_pred m (L1 # L2 # post)"
    by (rule find_bracket_skip [OF sub k1 first])
  also have "\<dots> = Inr (Some (L_est, max L1 L2))"
    using g1 g2 br ce by (simp add: dict_get_Some)
  finally have "\<forall>rc. select_length A gmro_pred m rc = Inr (returned rc L_est (max L1 L2))"
    by (simp add: select_length_def ord)
  with ce show ?thesis by blast
qed

lemma gmro_pred_at_nonempty: "gmro_pred_at A I e g vds = Inr gmro_pred \<Longrightarrow> gmro_pred \<noteq> []"
  by (auto simp: gmro_pred_at_def Let_def split: option.splits if_splits sum.splits)

lemma select_length_fallback:
  assumes ne: "gmro_pred \<noteq> []"
    and nobr: "no_bracket_in gmro_pred m (sort (map fst gmro_pred))"
  shows "\<exists>L_disc g_disc. map_of gmro_pred L_disc = Some g_disc \<and>
           (\<forall>L g'. map_of gmro_pred L = Some g' \<longrightarrow>
              \<bar>fsub A g_disc m\<bar> \<le> \<bar>fsub A g' m\<bar> \<and>
              (\<bar>fsub A g' m\<bar> = \<bar>fsub A g_disc m\<bar> \<longrightarrow> L_disc \<le> L)) \<and>
           (\<forall>rc. select_length A gmro_pred m rc = Inr (returned rc (ffloat A L_disc) L_disc))"
proof -
  let ?Ls = "sort (map fst gmro_pred)"
  let ?f = "\<lambda>L. case map_of gmro_pred L of None \<Rightarrow> 0 | Some g \<Rightarrow> \<bar>fsub A g m\<bar>"
  have keys: "set ?Ls = fst ` set gmro_pred" by simp
  have none: "find_bracket A gmro_pred m ?Ls = Inr None"
    by (rule find_bracket_none [OF _ nobr]) simp
  have ne': "?Ls \<noteq> []" using ne by (cases gmro_pred) (auto simp: sort_key_def)
  have key: "\<forall>L\<in>set ?Ls. gmro_distance A gmro_pred m L = Inr (?f L)"
  proof
    fix L assume "L \<in> set ?Ls"
    then have "L \<in> fst ` set gmro_pred" by simp
    from dict_get_key [OF this] show "gmro_distance A gmro_pred m L = Inr (?f L)"
      by (auto simp: gmro_distance_def)
  qed
  have srt: "sorted ?Ls" by simp
  from py_min_key_first_min [OF ne' key srt] obtain p where
    p: "py_min_key (gmro_distance A gmro_pred m) ?Ls = Inr p" "p \<in> set ?Ls"
       "\<forall>x\<in>set ?Ls. ?f p \<le> ?f x \<and> (?f x = ?f p \<longrightarrow> p \<le> x)" by blast
  from p(2) have "p \<in> fst ` set gmro_pred" by simp
  from dict_get_key [OF this] obtain gp where gp: "map_of gmro_pred p = Some gp" by auto
  have best: "\<bar>fsub A gp m\<bar> \<le> \<bar>fsub A g' m\<bar> \<and> (\<bar>fsub A g' m\<bar> = \<bar>fsub A gp m\<bar> \<longrightarrow> p \<le> L)"
    if "map_of gmro_pred L = Some g'" for L g'
  proof -
    from that have "L \<in> set ?Ls" by (force dest: map_of_SomeD)
    with p(3) have "?f p \<le> ?f L \<and> (?f L = ?f p \<longrightarrow> p \<le> L)" by blast
    with gp that show ?thesis by simp
  qed
  have "\<forall>rc. select_length A gmro_pred m rc = Inr (returned rc (ffloat A p) p)"
    using none p(1) by (simp add: select_length_def)
  with gp best show ?thesis by blast
qed

lemma sample_loaded:
  "loaded sample_0p4 (2 / 5) ''gmro''
     (loaded sample_0p2 (1 / 5) ''gmro'' (init ''thin_plate_spline'' None)) =
   \<lparr>kernel' = ''thin_plate_spline'', epsilon = None, quantities = [''id_w'', ''gmro'', ''ft''],
    data = (empty_planes [''id_w'', ''gmro'', ''ft''])(''gmro'' \<mapsto>
      [(1 / 5, [\<lparr>gm_id = 10, length_nm = 500, val = 20\<rparr>, \<lparr>gm_id = 10, length_nm = 700, val = 24\<rparr>,
                 \<lparr>gm_id = 20, length_nm = 500, val = 28\<rparr>, \<lparr>gm_id = 20, length_nm = 700, val = 32\<rparr>]),
       (2 / 5, [\<lparr>gm_id = 20, length_nm = 500, val = 50\<rparr>, \<lparr>gm_id = 10, length_nm = 700, val = 40\<rparr>,
                 \<lparr>gm_id = 10, length_nm = 500, val = 30\<rparr>, \<lparr>gm_id = 20, length_nm = 700, val = 60\<rparr>])]),
    rbf = empty_planes [''id_w'', ''gmro'', ''ft''],
    lengths = None\<rparr>"
  by (simp add: loaded_def append_data_def init_def empty_planes_def sample_0p2_def sample_0p4_def raw_def)

lemma sample_data:
  "data sample_engine ''gmro'' = Some
      [(1 / 5, [\<lparr>gm_id = 10, length_nm = 500, val = 20\<rparr>, \<lparr>gm_id = 10, length_nm = 700, val = 24\<rparr>,
                 \<lparr>gm_id = 20, length_nm = 500, val = 28\<rparr>, \<lparr>gm_id = 20, length_nm = 700, val = 32\<rparr>]),
       (2 / 5, [\<lparr>gm_id = 20, length_nm = 500, val = 50\<rparr>, \<lparr>gm_id = 10, length_nm = 700, val = 40\<rparr>,
                 \<lparr>gm_id = 10, length_nm = 500, val = 30\<rparr>, \<lparr>gm_id = 20, length_nm = 700, val = 60\<rparr>])]"
  unfolding sample_engine_def sample_loaded
  by (simp add: build_interpolators_def empty_planes_def mean_rbf_def split: prod.splits option.splits)

lemma sample_lengths: "lengths sample_engine = Some [500, 700]"
  unfolding sample_engine_def sample_loaded
  by (simp add: build_interpolators_def empty_planes_def mean_rbf_def py_int_def)

lemma sample_rbf:
  "rbf sample_engine ''gmro'' = Some [(1 / 5, \<lambda>g l. 26), (2 / 5, \<lambda>g l. 45)]"
  unfolding sample_engine_def sample_loaded
  by (simp add: build_interpolators_def empty_planes_def mean_rbf_def py_int_def)

lemma sample_quantities: "quantities sample_engine = [''id_w'', ''gmro'', ''ft'']"
  unfolding sample_engine_def sample_loaded
  by (simp add: build_interpolators_def empty_planes_def mean_rbf_def py_int_def)

lemma sample_pred_0p4:
  "gmro_pred_at exact_arith np_interp sample_engine 10 (2 / 5) = Inr [(500, 30), (700, 40)]"
  by (simp add: gmro_pred_at_def sample_data sample_lengths snap_plane_def dict_get_def
      np_interp_def exact_arith_def)

lemma ieee_round_zero [simp]: "ieee_round 0 = 0"
  by (simp add: ieee_round_def)

lemma ieee_round_eval:
  assumes "2 powi e \<le> \<bar>x\<bar>" and "\<bar>x\<bar> < 2 powi (e + 1)" and "- 1022 \<le> e"
  shows "ieee_round x = of_int (round_half_even (x / 2 powi (e - 52))) * 2 powi (e - 52)"
proof -
  have pos: "0 < \<bar>x\<bar>" using assms(1) by (smt (verit) zero_less_power_int)
  have a: "(2::real) powr real_of_int e = 2 powi e"
    and b: "(2::real) powr real_of_int (e + 1) = 2 powi (e + 1)"
    by (rule powr_real_of_int'; simp)+
  have "2 powr real_of_int e \<le> \<bar>x\<bar> \<and> \<bar>x\<bar> < 2 powr real_of_int (e + 1)"
    using assms(1,2) by (simp only: a b)
  then have "\<lfloor>log 2 \<bar>x\<bar>\<rfloor> = e"
    using pos by (subst floor_log_eq_powr_iff) simp_all
  with pos assms(3) show ?thesis by (simp add: ieee_round_def Let_def max_def)
qed

lemmas ieee_at =
  ieee_round_eval [where e = "- 40"] ieee_round_eval [where e = "- 2"]
  ieee_round_eval [where e = "- 1"] ieee_round_eval [where e = 2]
  ieee_round_eval [where e = 3] ieee_round_eval [where e = 6]
  ieee_round_eval [where e = 7] ieee_round_eval [where e = 8]
  ieee_round_eval [where e = 9] ieee_round_eval [where e = 10]
  ieee_round_eval [where e = 19]

lemmas ieee_simps = ieee_at round_half_even_def power_int_minus double_arith_def double_1e_12_def

lemma estimate_bracket:
  assumes "gmro_pred_at A I e g vds = Inr gmro_pred"
    and "sort (map fst gmro_pred) = pre @ L1 # L2 # post"
    and "map_of gmro_pred L1 = Some g1" and "map_of gmro_pred L2 = Some g2"
    and "brackets g1 g2 m"
    and "no_bracket_in gmro_pred m (pre @ [L1])"
  shows "\<exists>L_est. continuous_estimate A L1 L2 g1 g2 m = Inr L_est \<and>
           (\<forall>rc. estimate_length_from_gmro A I e g m vds rc =
                   Inr (returned rc L_est (max L1 L2)))"
  using select_length_bracket [OF assms(2-6), of A] assms(1)
  by (simp add: estimate_length_from_gmro_def)

text \<open>
  C1. When the ascending scan finds its first adjacent pair \<open>(L1, L2)\<close> whose
  reconstructed values bracket the measured gmro, the discrete length returned is
  \<open>max L1 L2\<close>, with or without the continuous estimate, in every arithmetic; for the
  bracket \<open>(500, 30)\<close>, \<open>(700, 40)\<close> and the measurement 35 the continuous estimate is
  600 and the discrete one 700, in exact arithmetic and in binary64.
\<close>

theorem estimate_discrete_is_max_of_bracket:
  assumes "gmro_pred_at A I e g vds = Inr gmro_pred"
    and "sort (map fst gmro_pred) = pre @ L1 # L2 # post"
    and "map_of gmro_pred L1 = Some g1" and "map_of gmro_pred L2 = Some g2"
    and "brackets g1 g2 m"
    and "no_bracket_in gmro_pred m (pre @ [L1])"
  shows "estimate_length_from_gmro A I e g m vds False = Inr (Discrete (max L1 L2)) \<and>
         (\<exists>L_est. estimate_length_from_gmro A I e g m vds True = Inr (Both L_est (max L1 L2))) \<and>
         select_length exact_arith [(500, 30), (700, 40)] 35 True = Inr (Both 600 700) \<and>
         select_length exact_arith [(500, 30), (700, 40)] 35 False = Inr (Discrete 700) \<and>
         select_length double_arith [(500, 30), (700, 40)] 35 True = Inr (Both 600 700) \<and>
         select_length double_arith [(500, 30), (700, 40)] 35 False = Inr (Discrete 700)"
proof -
  have ex: "select_length exact_arith [(500, 30), (700, 40)] 35 rc = Inr (returned rc 600 700)"
    for rc
    by (simp add: select_length_def dict_get_def brackets_def continuous_estimate_value
        exact_arith_def double_1e_12_def)
  have fl: "select_length double_arith [(500, 30), (700, 40)] 35 rc = Inr (returned rc 600 700)"
    for rc
    by (simp add: select_length_def dict_get_def brackets_def continuous_estimate_value
        ieee_simps)
  from estimate_bracket [OF assms] obtain L_est where
    "\<forall>rc. estimate_length_from_gmro A I e g m vds rc = Inr (returned rc L_est (max L1 L2))"
    by blast
  then have "estimate_length_from_gmro A I e g m vds False = Inr (Discrete (max L1 L2))"
    and "estimate_length_from_gmro A I e g m vds True = Inr (Both L_est (max L1 L2))"
    by (simp_all add: returned_def)
  with ex fl show ?thesis by (simp add: returned_def)
qed

lemma sample_estimate:
  "estimate_length_from_gmro exact_arith np_interp sample_engine 10 m (2 / 5) rc =
   select_length exact_arith [(500, 30), (700, 40)] m rc"
  by (simp add: estimate_length_from_gmro_def sample_pred_0p4)

theorem estimate_discrete_is_max_of_bracket_witness:
  "gmro_pred_at exact_arith np_interp sample_engine 10 (2 / 5) = Inr [(500, 30), (700, 40)] \<and>
   brackets 30 40 35 \<and>
   estimate_length_from_gmro exact_arith np_interp sample_engine 10 35 (2 / 5) False =
     Inr (Discrete 700) \<and>
   estimate_length_from_gmro exact_arith np_interp sample_engine 10 35 (2 / 5) True =
     Inr (Both 600 700) \<and>
   estimate_length_from_gmro exact_arith np_interp sample_engine 10 31 (2 / 5) True =
     Inr (Both 520 700)"
proof -
  have h2: "sort (map fst [(500::int, 30::real), (700, 40)]) = [] @ 500 # 700 # []" by simp
  have h3: "map_of [(500::int, 30::real), (700, 40)] 500 = Some 30" by simp
  have h4: "map_of [(500::int, 30::real), (700, 40)] 700 = Some 40" by simp
  have h5: "brackets 30 40 35" by (simp add: brackets_def)
  have h6: "no_bracket_in [(500, 30), (700, 40)] 35 ([] @ [500])"
    by (simp add: no_bracket_in_def adjacent_pairs_def)
  have a: "estimate_length_from_gmro exact_arith np_interp sample_engine 10 35 (2 / 5) True =
      Inr (Both 600 700)"
    unfolding sample_estimate
    by (simp add: select_length_def dict_get_def brackets_def continuous_estimate_value
        returned_def exact_arith_def double_1e_12_def)
  have b: "estimate_length_from_gmro exact_arith np_interp sample_engine 10 31 (2 / 5) True =
      Inr (Both 520 700)"
    unfolding sample_estimate
    by (simp add: select_length_def dict_get_def brackets_def continuous_estimate_value
        returned_def exact_arith_def double_1e_12_def)
  have c: "estimate_length_from_gmro exact_arith np_interp sample_engine 10 35 (2 / 5) False =
      Inr (Discrete 700)"
    using estimate_discrete_is_max_of_bracket [OF sample_pred_0p4 h2 h3 h4 h5 h6] by simp
  show ?thesis using a b c h5 sample_pred_0p4 by blast
qed

lemma blend_within:
  fixes a b g1 g2 m :: real
  assumes "a \<le> b" and "brackets g1 g2 m" and "g1 \<noteq> g2"
  shows "a \<le> a + (m - g1) / (g2 - g1) * (b - a) \<and> a + (m - g1) / (g2 - g1) * (b - a) \<le> b"
proof -
  let ?t = "(m - g1) / (g2 - g1)"
  have t0: "0 \<le> ?t" using assms(2,3) by (auto simp: brackets_def zero_le_divide_iff)
  have t1: "?t \<le> 1" using assms(2,3) by (auto simp: brackets_def divide_le_eq_1)
  have d: "0 \<le> b - a" using assms(1) by simp
  have "0 \<le> ?t * (b - a)" using t0 d by (rule mult_nonneg_nonneg)
  moreover have "?t * (b - a) \<le> 1 * (b - a)" using t1 d by (rule mult_right_mono)
  ultimately show ?thesis by simp
qed

text \<open>
  C10. In exact arithmetic, when the scan finds the bracket \<open>(L1, L2)\<close> with
  \<open>L1 < L2\<close>, the continuous estimate returned lies between \<open>L1\<close> and \<open>L2\<close>, and the
  discrete estimate returned is not below it.
\<close>

theorem estimate_continuous_within_bracket:
  assumes "gmro_pred_at exact_arith I e g vds = Inr gmro_pred"
    and "sort (map fst gmro_pred) = pre @ L1 # L2 # post"
    and "map_of gmro_pred L1 = Some g1" and "map_of gmro_pred L2 = Some g2"
    and "brackets g1 g2 m"
    and "no_bracket_in gmro_pred m (pre @ [L1])"
    and "L1 < L2"
  shows "\<exists>L_est L_disc.
           estimate_length_from_gmro exact_arith I e g m vds True = Inr (Both L_est L_disc) \<and>
           real_of_int L1 \<le> L_est \<and> L_est \<le> real_of_int L2 \<and> L_est \<le> real_of_int L_disc"
proof -
  from estimate_bracket [OF assms(1-6)] obtain L_est where
    ce: "continuous_estimate exact_arith L1 L2 g1 g2 m = Inr L_est"
    and est: "estimate_length_from_gmro exact_arith I e g m vds True = Inr (Both L_est L2)"
    using assms(7) by (auto simp: returned_def)
  have "real_of_int L1 \<le> L_est \<and> L_est \<le> real_of_int L2"
  proof (cases "\<bar>g2 - g1\<bar> < double_1e_12")
    case True
    then have "L_est = (real_of_int L1 + real_of_int L2) / 2"
      using ce by (simp add: continuous_estimate_value exact_arith_def)
    then show ?thesis using assms(7) by simp
  next
    case False
    have "0 < double_1e_12" by (simp add: double_1e_12_def)
    with False have ne: "g1 \<noteq> g2" by auto
    have le: "real_of_int L1 \<le> real_of_int L2" using assms(7) by simp
    have "L_est = real_of_int L1 + (m - g1) / (g2 - g1) * (real_of_int L2 - real_of_int L1)"
      using ce False by (simp add: continuous_estimate_value exact_arith_def)
    with blend_within [OF le assms(5) ne] show ?thesis by simp
  qed
  with est show ?thesis by blast
qed

theorem estimate_continuous_within_bracket_witness:
  "gmro_pred_at exact_arith np_interp sample_engine 10 (2 / 5) = Inr [(500, 30), (700, 40)] \<and>
   brackets 30 40 31 \<and> (500::int) < 700 \<and>
   (\<exists>L_est L_disc.
      estimate_length_from_gmro exact_arith np_interp sample_engine 10 31 (2 / 5) True =
        Inr (Both L_est L_disc) \<and>
      real_of_int 500 \<le> L_est \<and> L_est \<le> real_of_int 700 \<and> L_est \<le> real_of_int L_disc)"
proof -
  have h2: "sort (map fst [(500::int, 30::real), (700, 40)]) = [] @ 500 # 700 # []" by simp
  have h3: "map_of [(500::int, 30::real), (700, 40)] 500 = Some 30" by simp
  have h4: "map_of [(500::int, 30::real), (700, 40)] 700 = Some 40" by simp
  have h5: "brackets 30 40 31" by (simp add: brackets_def)
  have h6: "no_bracket_in [(500, 30), (700, 40)] 31 ([] @ [500])"
    by (simp add: no_bracket_in_def adjacent_pairs_def)
  have h7: "(500::int) < 700" by simp
  show ?thesis
    using estimate_continuous_within_bracket [OF sample_pred_0p4 h2 h3 h4 h5 h6 h7] h5 h7
      sample_pred_0p4
    by blast
qed

text \<open>
  C5, for computed distances. When no adjacent pair of reconstructed lengths brackets the measurement,
  the discrete length returned is the reconstructed length whose computed distance
  \<open>abs(gmro_pred[L] - gmro_measured)\<close>, a rounded float difference, is least, the lowest
  such length when several have that computed distance; the continuous estimate is that
  length converted to a float. The length need not be the one nearest in exact arithmetic.
\<close>

theorem no_bracket_falls_back_to_nearest:
  assumes "gmro_pred_at A I e g vds = Inr gmro_pred"
    and "no_bracket_in gmro_pred m (sort (map fst gmro_pred))"
  shows "\<exists>L_disc g_disc.
           map_of gmro_pred L_disc = Some g_disc \<and>
           (\<forall>L g'. map_of gmro_pred L = Some g' \<longrightarrow>
              \<bar>fsub A g_disc m\<bar> \<le> \<bar>fsub A g' m\<bar> \<and>
              (\<bar>fsub A g' m\<bar> = \<bar>fsub A g_disc m\<bar> \<longrightarrow> L_disc \<le> L)) \<and>
           estimate_length_from_gmro A I e g m vds False = Inr (Discrete L_disc) \<and>
           estimate_length_from_gmro A I e g m vds True = Inr (Both (ffloat A L_disc) L_disc)"
proof -
  have ne: "gmro_pred \<noteq> []" using assms(1) by (rule gmro_pred_at_nonempty)
  from select_length_fallback [OF ne assms(2), of A] obtain L_disc g_disc where
    sel: "map_of gmro_pred L_disc = Some g_disc"
         "\<forall>L g'. map_of gmro_pred L = Some g' \<longrightarrow>
              \<bar>fsub A g_disc m\<bar> \<le> \<bar>fsub A g' m\<bar> \<and>
              (\<bar>fsub A g' m\<bar> = \<bar>fsub A g_disc m\<bar> \<longrightarrow> L_disc \<le> L)"
         "\<forall>rc. select_length A gmro_pred m rc = Inr (returned rc (ffloat A L_disc) L_disc)"
    by blast
  have "estimate_length_from_gmro A I e g m vds False = Inr (Discrete L_disc)"
    and "estimate_length_from_gmro A I e g m vds True = Inr (Both (ffloat A L_disc) L_disc)"
    using assms(1) sel(3) by (simp_all add: estimate_length_from_gmro_def returned_def)
  with sel(1,2) show ?thesis by blast
qed

lemma near_pred:
  "gmro_pred_at double_arith np_interp near_engine 10 (1 / 4) =
     Inr [(500, 30), (700, 8444249301319681 / 2 ^ 48)]"
  by (simp add: gmro_pred_at_def near_engine_def build_interpolators_def loaded_def
      append_data_def init_def empty_planes_def raw_def mean_rbf_def py_int_def
      snap_plane_def dict_get_def np_interp_def)

lemma near_no_bracket:
  "no_bracket_in [(500, 30), (700, 8444249301319681 / 2 ^ 48)] 1000000
     (sort (map fst [(500::int, 30::real), (700, 8444249301319681 / 2 ^ 48)]))"
  by (simp add: no_bracket_in_def adjacent_pairs_def brackets_def)

lemma near_run:
  "estimate_length_from_gmro double_arith np_interp near_engine 10 1000000 (1 / 4) True =
     Inr (Both 500 500)"
  unfolding estimate_length_from_gmro_def near_pred
  by (simp add: select_length_def dict_get_def brackets_def returned_def gmro_distance_def
      ieee_simps)

theorem no_bracket_falls_back_to_nearest_counterexample:
  "gmro_pred_at double_arith np_interp near_engine 10 (1 / 4) =
     Inr [(500, 30), (700, 8444249301319681 / 2 ^ 48)] \<and>
   no_bracket_in [(500, 30), (700, 8444249301319681 / 2 ^ 48)] 1000000
     (sort (map fst [(500::int, 30::real), (700, 8444249301319681 / 2 ^ 48)])) \<and>
   estimate_length_from_gmro double_arith np_interp near_engine 10 1000000 (1 / 4) True =
     Inr (Both 500 500) \<and>
   \<bar>8444249301319681 / 2 ^ 48 - 1000000\<bar> < \<bar>30 - (1000000::real)\<bar>"
  using near_pred near_no_bracket near_run by simp

theorem no_bracket_falls_back_to_nearest_witness:
  "gmro_pred_at double_arith np_interp near_engine 10 (1 / 4) =
     Inr [(500, 30), (700, 8444249301319681 / 2 ^ 48)] \<and>
   no_bracket_in [(500, 30), (700, 8444249301319681 / 2 ^ 48)] 1000000
     (sort (map fst [(500::int, 30::real), (700, 8444249301319681 / 2 ^ 48)])) \<and>
   \<bar>fsub double_arith 30 1000000\<bar> = 999970 \<and>
   \<bar>fsub double_arith (8444249301319681 / 2 ^ 48) 1000000\<bar> = 999970 \<and>
   (\<exists>L_disc g_disc.
      map_of [(500::int, 30::real), (700, 8444249301319681 / 2 ^ 48)] L_disc = Some g_disc \<and>
      (\<forall>L g'. map_of [(500::int, 30::real), (700, 8444249301319681 / 2 ^ 48)] L = Some g' \<longrightarrow>
         \<bar>fsub double_arith g_disc 1000000\<bar> \<le> \<bar>fsub double_arith g' 1000000\<bar> \<and>
         (\<bar>fsub double_arith g' 1000000\<bar> = \<bar>fsub double_arith g_disc 1000000\<bar> \<longrightarrow>
            L_disc \<le> L)) \<and>
      estimate_length_from_gmro double_arith np_interp near_engine 10 1000000 (1 / 4) False =
        Inr (Discrete L_disc) \<and>
      estimate_length_from_gmro double_arith np_interp near_engine 10 1000000 (1 / 4) True =
        Inr (Both (ffloat double_arith L_disc) L_disc))"
proof -
  have d1: "\<bar>fsub double_arith 30 1000000\<bar> = 999970" by (simp add: ieee_simps)
  have d2: "\<bar>fsub double_arith (8444249301319681 / 2 ^ 48) 1000000\<bar> = 999970"
    by (simp add: ieee_simps)
  show ?thesis
    using no_bracket_falls_back_to_nearest [OF near_pred near_no_bracket]
      near_pred near_no_bracket d1 d2
    by blast
qed

lemma find_bracket_no_zero_division:
  "find_bracket A gmro_pred m Ls \<noteq> Inl ZeroDivisionError"
  by (induction A gmro_pred m Ls rule: find_bracket.induct)
     (auto simp: dict_get_def continuous_estimate_value split: option.splits)

lemma select_length_no_zero_division:
  "select_length A gmro_pred m rc \<noteq> Inl ZeroDivisionError"
proof
  assume a: "select_length A gmro_pred m rc = Inl ZeroDivisionError"
  let ?Ls = "sort (map fst gmro_pred)"
  from a have "find_bracket A gmro_pred m ?Ls = Inl ZeroDivisionError \<or>
      py_min_key (gmro_distance A gmro_pred m) ?Ls = Inl ZeroDivisionError"
    by (auto simp: select_length_def Let_def split: sum.splits option.splits prod.splits)
  then have "py_min_key (gmro_distance A gmro_pred m) ?Ls = Inl ZeroDivisionError"
    by (simp add: find_bracket_no_zero_division)
  from py_min_key_error [OF this] show False
    by (auto simp: gmro_distance_def dict_get_def split: option.splits)
qed

lemma gmro_pred_at_no_zero_division:
  "gmro_pred_at A I e g vds \<noteq> Inl ZeroDivisionError"
proof
  assume a: "gmro_pred_at A I e g vds = Inl ZeroDivisionError"
  then obtain planes where "snap_plane A planes vds = Inl ZeroDivisionError"
    by (auto simp: gmro_pred_at_def dict_get_def Let_def split: option.splits if_splits sum.splits)
  then show False
    using py_min_key_error [of "\<lambda>x. Inr \<bar>fsub A x vds\<bar>" "sort (map fst planes)" ZeroDivisionError]
    by (auto simp: snap_plane_def)
qed

text \<open>
  C6, for the computed difference and the float threshold. In the continuous-estimate step, when the computed \<open>abs(g2 - g1)\<close> is
  below the float \<open>1e-12\<close>, which is \<open>4951760157141521 / 2 ^ 92\<close>, the estimate is
  \<open>0.5 * (L1 + L2)\<close>; otherwise the step divides by the computed \<open>g2 - g1\<close>, whose absolute
  value is then at least that float. The result of the step does not depend on what division
  does with a divisor smaller than that float in absolute value, and neither the step nor
  the whole estimation raises a division by zero. At a winning bracket with such values the
  estimation returns the midpoint.
\<close>

theorem flat_bracket_takes_midpoint:
  "(\<bar>fsub A g2 g1\<bar> < double_1e_12 \<longrightarrow>
      continuous_estimate A L1 L2 g1 g2 m = Inr (fmul A (1 / 2) (ffloat A (L1 + L2)))) \<and>
   (double_1e_12 \<le> \<bar>fsub A g2 g1\<bar> \<longrightarrow>
      continuous_estimate A L1 L2 g1 g2 m =
        Inr (fadd A (ffloat A L1)
               (fmul A (fdiv A (fsub A m g1) (fsub A g2 g1)) (ffloat A (L2 - L1))))) \<and>
   ((\<forall>a b. double_1e_12 \<le> \<bar>b\<bar> \<longrightarrow> dv a b = fdiv A a b) \<longrightarrow>
      continuous_estimate (A\<lparr>fdiv := dv\<rparr>) L1 L2 g1 g2 m = continuous_estimate A L1 L2 g1 g2 m) \<and>
   continuous_estimate A L1 L2 g1 g2 m \<noteq> Inl ZeroDivisionError \<and>
   estimate_length_from_gmro A I e g m vds rc \<noteq> Inl ZeroDivisionError \<and>
   (gmro_pred_at A I e g vds = Inr gmro_pred \<and>
    sort (map fst gmro_pred) = pre @ L1 # L2 # post \<and>
    map_of gmro_pred L1 = Some g1 \<and> map_of gmro_pred L2 = Some g2 \<and>
    brackets g1 g2 m \<and> no_bracket_in gmro_pred m (pre @ [L1]) \<and>
    \<bar>fsub A g2 g1\<bar> < double_1e_12 \<longrightarrow>
      estimate_length_from_gmro A I e g m vds True =
        Inr (Both (fmul A (1 / 2) (ffloat A (L1 + L2))) (max L1 L2)))"
proof -
  have a: "\<bar>fsub A g2 g1\<bar> < double_1e_12 \<longrightarrow>
      continuous_estimate A L1 L2 g1 g2 m = Inr (fmul A (1 / 2) (ffloat A (L1 + L2)))"
    by (simp add: continuous_estimate_value)
  have a': "double_1e_12 \<le> \<bar>fsub A g2 g1\<bar> \<longrightarrow>
      continuous_estimate A L1 L2 g1 g2 m =
        Inr (fadd A (ffloat A L1)
               (fmul A (fdiv A (fsub A m g1) (fsub A g2 g1)) (ffloat A (L2 - L1))))"
    by (simp add: continuous_estimate_value)
  have b: "(\<forall>a b. double_1e_12 \<le> \<bar>b\<bar> \<longrightarrow> dv a b = fdiv A a b) \<longrightarrow>
      continuous_estimate (A\<lparr>fdiv := dv\<rparr>) L1 L2 g1 g2 m = continuous_estimate A L1 L2 g1 g2 m"
    by (simp add: continuous_estimate_value not_less)
  have c: "continuous_estimate A L1 L2 g1 g2 m \<noteq> Inl ZeroDivisionError"
    by (simp add: continuous_estimate_value)
  have d: "estimate_length_from_gmro A I e g m vds rc \<noteq> Inl ZeroDivisionError"
    using gmro_pred_at_no_zero_division [of A I e g vds]
          select_length_no_zero_division [of A _ m rc]
    by (auto simp: estimate_length_from_gmro_def split: sum.splits)
  have e: "estimate_length_from_gmro A I e g m vds True =
        Inr (Both (fmul A (1 / 2) (ffloat A (L1 + L2))) (max L1 L2))"
    if "gmro_pred_at A I e g vds = Inr gmro_pred"
      and "sort (map fst gmro_pred) = pre @ L1 # L2 # post"
      and "map_of gmro_pred L1 = Some g1" and "map_of gmro_pred L2 = Some g2"
      and "brackets g1 g2 m" and "no_bracket_in gmro_pred m (pre @ [L1])"
      and "\<bar>fsub A g2 g1\<bar> < double_1e_12"
    using estimate_bracket [OF that(1-6)] that(7)
    by (auto simp: returned_def continuous_estimate_value)
  from a a' b c d e show ?thesis by blast
qed

lemma tiny_pred:
  "gmro_pred_at double_arith np_interp tiny_engine 10 (1 / 4) =
     Inr [(500, 1 / 2 ^ 200), (700, 4951760157141521 / 2 ^ 92)]"
  by (simp add: gmro_pred_at_def tiny_engine_def build_interpolators_def loaded_def
      append_data_def init_def empty_planes_def raw_def mean_rbf_def py_int_def
      snap_plane_def dict_get_def np_interp_def)

lemma tiny_run:
  "estimate_length_from_gmro double_arith np_interp tiny_engine 10 (1 / 2 ^ 200) (1 / 4) True =
     Inr (Both 500 700)"
  unfolding estimate_length_from_gmro_def tiny_pred
  by (simp add: select_length_def dict_get_def brackets_def returned_def
      continuous_estimate_value ieee_simps)

theorem flat_bracket_takes_midpoint_counterexample:
  "gmro_pred_at double_arith np_interp tiny_engine 10 (1 / 4) =
     Inr [(500, 1 / 2 ^ 200), (700, 4951760157141521 / 2 ^ 92)] \<and>
   brackets (1 / 2 ^ 200) (4951760157141521 / 2 ^ 92) (1 / 2 ^ 200) \<and>
   \<bar>4951760157141521 / 2 ^ 92 - 1 / 2 ^ 200\<bar> < double_1e_12 \<and>
   double_1e_12 < 1 / 10 ^ 12 \<and>
   estimate_length_from_gmro double_arith np_interp tiny_engine 10 (1 / 2 ^ 200) (1 / 4) True =
     Inr (Both 500 700) \<and>
   (500::real) \<noteq> (500 + 700) / 2 \<and>
   \<bar>4951760157141521 / 2 ^ 92 - 0\<bar> < (1::real) / 10 ^ 12 \<and>
   continuous_estimate double_arith 500 700 0 (4951760157141521 / 2 ^ 92) 0 = Inr 500"
proof -
  have b: "brackets (1 / 2 ^ 200) (4951760157141521 / 2 ^ 92) (1 / 2 ^ 200)"
    by (simp add: brackets_def)
  have c: "continuous_estimate double_arith 500 700 0 (4951760157141521 / 2 ^ 92) 0 = Inr 500"
    by (simp add: continuous_estimate_value ieee_simps)
  show ?thesis using tiny_pred tiny_run b c by (simp add: double_1e_12_def)
qed

lemma flat_pred:
  "gmro_pred_at double_arith np_interp flat_engine 10 (1 / 4) = Inr [(500, 30), (700, 30)]"
  by (simp add: gmro_pred_at_def flat_engine_def build_interpolators_def loaded_def
      append_data_def init_def empty_planes_def raw_def mean_rbf_def py_int_def
      snap_plane_def dict_get_def np_interp_def)

theorem flat_bracket_takes_midpoint_witness:
  "\<bar>fsub double_arith 30 30\<bar> < double_1e_12 \<and>
   continuous_estimate double_arith 500 700 30 30 30 = Inr 600 \<and>
   double_1e_12 \<le> \<bar>fsub double_arith 40 30\<bar> \<and>
   continuous_estimate double_arith 500 700 30 40 35 = Inr 600 \<and>
   continuous_estimate
     (double_arith\<lparr>fdiv := \<lambda>a b. if \<bar>b\<bar> < double_1e_12 then 0 else fdiv double_arith a b\<rparr>)
     500 700 30 40 35 = Inr 600 \<and>
   gmro_pred_at double_arith np_interp flat_engine 10 (1 / 4) = Inr [(500, 30), (700, 30)] \<and>
   brackets 30 30 30 \<and>
   estimate_length_from_gmro double_arith np_interp flat_engine 10 30 (1 / 4) True =
     Inr (Both 600 700)"
proof -
  let ?dv = "\<lambda>a b :: real. if \<bar>b\<bar> < double_1e_12 then 0 else fdiv double_arith a b"
  have h0: "\<bar>fsub double_arith 30 30\<bar> < double_1e_12" by (simp add: double_arith_def double_1e_12_def)
  have h1: "double_1e_12 \<le> \<bar>fsub double_arith 40 30\<bar>" by (simp add: ieee_simps)
  have h2: "sort (map fst [(500::int, 30::real), (700, 30)]) = [] @ 500 # 700 # []" by simp
  have h3: "map_of [(500::int, 30::real), (700, 30)] 500 = Some 30" by simp
  have h4: "map_of [(500::int, 30::real), (700, 30)] 700 = Some 30" by simp
  have h5: "brackets 30 30 30" by (simp add: brackets_def)
  have h6: "no_bracket_in [(500, 30), (700, 30)] 30 ([] @ [500])"
    by (simp add: no_bracket_in_def adjacent_pairs_def)
  have dv: "\<forall>a b. double_1e_12 \<le> \<bar>b\<bar> \<longrightarrow> ?dv a b = fdiv double_arith a b" by simp
  have half: "fmul double_arith (1 / 2) (ffloat double_arith (500 + 700)) = 600"
    by (simp add: ieee_simps)
  have blend: "fadd double_arith (ffloat double_arith 500)
      (fmul double_arith (fdiv double_arith (fsub double_arith 35 30) (fsub double_arith 40 30))
         (ffloat double_arith (700 - 500))) = 600"
    by (simp add: ieee_simps)
  note T1 = flat_bracket_takes_midpoint
      [of double_arith 30 30 500 700 30 ?dv np_interp flat_engine 10 "1 / 4" True
          "[(500, 30), (700, 30)]" "[]" "[]"]
  note T2 = flat_bracket_takes_midpoint [of double_arith 40 30 500 700 35 ?dv]
  have mid: "continuous_estimate double_arith 500 700 30 30 30 = Inr 600"
    using T1 h0 half by simp
  have eng: "estimate_length_from_gmro double_arith np_interp flat_engine 10 30 (1 / 4) True =
      Inr (Both 600 700)"
    using T1 h0 flat_pred h2 h3 h4 h5 h6 half by simp
  have div: "continuous_estimate double_arith 500 700 30 40 35 = Inr 600"
    using T2 h1 blend by simp
  have ind: "continuous_estimate (double_arith\<lparr>fdiv := ?dv\<rparr>) 500 700 30 40 35 = Inr 600"
    using T2 dv div by simp
  show ?thesis using h0 h1 h5 flat_pred mid eng div ind by blast
qed

lemma dict_set_keys: "fst ` set (dict_set k v d) = insert k (fst ` set d)"
  by (induction d) auto

lemma reconstruct_keys:
  "fst ` set (reconstruct I g df Ls acc) =
     fst ` set acc \<union> {L \<in> set Ls. \<exists>r\<in>set df. length_nm r = real_of_int L}"
proof (induction Ls arbitrary: acc)
  case Nil
  then show ?case by simp
next
  case (Cons L Ls)
  show ?case
  proof (cases "filter (\<lambda>r. length_nm r = real_of_int L) df = []")
    case True
    then have "\<not> (\<exists>r\<in>set df. length_nm r = real_of_int L)"
      by (simp add: filter_empty_conv)
    with True Cons.IH [of acc] show ?thesis by auto
  next
    case False
    then have "\<exists>r\<in>set df. length_nm r = real_of_int L"
      by (simp add: filter_empty_conv)
    with False Cons.IH show ?thesis by (auto simp: Let_def dict_set_keys)
  qed
qed

lemma filter_integer_rows:
  "filter (\<lambda>r. length_nm r = real_of_int L) (filter (\<lambda>r. length_nm r \<in> \<int>) df) =
   filter (\<lambda>r. length_nm r = real_of_int L) df"
  by (induction df) auto

lemma reconstruct_integer_rows:
  "reconstruct I g (filter (\<lambda>r. length_nm r \<in> \<int>) df) Ls acc = reconstruct I g df Ls acc"
  by (induction Ls arbitrary: acc) (simp_all add: filter_integer_rows Let_def del: filter_filter)

text \<open>
  C9. With gmro data loaded and the lengths computed, the estimation still raises when the
  snapped plane has no row whose length equals one of the integer lengths, in every
  arithmetic; the lengths that are reconstructed are exactly those with such a row, and rows
  whose length is not an integer never change the reconstruction.
\<close>

theorem no_matching_length_raises:
  assumes "data e ''gmro'' = Some planes" and "planes \<noteq> []" and "lengths e = Some Ls"
    and "snap_plane A planes vds = Inr p" and "map_of planes p = Some df"
  shows "((\<forall>L\<in>set Ls. \<forall>r\<in>set df. length_nm r \<noteq> real_of_int L) \<longrightarrow>
            estimate_length_from_gmro A I e g m vds rc = Inl (ValueError (No_gmro_at_plane p))) \<and>
         fst ` set (reconstruct I g df Ls []) =
            {L \<in> set Ls. \<exists>r\<in>set df. length_nm r = real_of_int L} \<and>
         reconstruct I g (filter (\<lambda>r. length_nm r \<in> \<int>) df) Ls [] = reconstruct I g df Ls []"
proof -
  have keys: "fst ` set (reconstruct I g df Ls []) =
      {L \<in> set Ls. \<exists>r\<in>set df. length_nm r = real_of_int L}"
    by (simp add: reconstruct_keys)
  have "estimate_length_from_gmro A I e g m vds rc = Inl (ValueError (No_gmro_at_plane p))"
    if none: "\<forall>L\<in>set Ls. \<forall>r\<in>set df. length_nm r \<noteq> real_of_int L"
  proof -
    have "fst ` set (reconstruct I g df Ls []) = {}" using keys none by auto
    then have "reconstruct I g df Ls [] = []" by simp
    then show ?thesis
      using assms by (simp add: estimate_length_from_gmro_def gmro_pred_at_def dict_get_def)
  qed
  with keys show ?thesis by (simp add: reconstruct_integer_rows)
qed

lemma offgrid_data: "data offgrid_engine ''gmro'' = Some [(1 / 4, dropna offgrid_rows)]"
  by (simp add: offgrid_engine_def build_interpolators_def loaded_def
      append_data_def init_def empty_planes_def raw_def mean_rbf_def offgrid_rows_def)

lemma offgrid_lengths: "lengths offgrid_engine = Some [500, 700]"
  by (simp add: offgrid_engine_def build_interpolators_def loaded_def
      append_data_def init_def empty_planes_def raw_def mean_rbf_def py_int_def offgrid_rows_def)

theorem no_matching_length_raises_witness:
  "data offgrid_engine ''gmro'' = Some [(1 / 4, dropna offgrid_rows)] \<and>
   lengths offgrid_engine = Some [500, 700] \<and>
   map length_nm (dropna offgrid_rows) = [1001 / 2, 1401 / 2, 1001 / 2, 1401 / 2] \<and>
   estimate_length_from_gmro double_arith np_interp offgrid_engine 10 22 (1 / 4) True =
     Inl (ValueError (No_gmro_at_plane (1 / 4)))"
proof -
  let ?df = "dropna offgrid_rows"
  have h2: "[(1 / 4 :: real, ?df)] \<noteq> []" by simp
  have h4: "snap_plane double_arith [(1 / 4, ?df)] (1 / 4) = Inr (1 / 4)"
    by (simp add: snap_plane_def)
  have h5: "map_of [(1 / 4 :: real, ?df)] (1 / 4) = Some ?df" by simp
  have rows: "map length_nm ?df = [1001 / 2, 1401 / 2, 1001 / 2, 1401 / 2]"
    by (simp add: offgrid_rows_def raw_def)
  have none: "\<forall>L\<in>set [500, 700]. \<forall>r\<in>set ?df. length_nm r \<noteq> real_of_int L"
    by (simp add: offgrid_rows_def raw_def)
  show ?thesis
    using no_matching_length_raises [OF offgrid_data h2 offgrid_lengths h4 h5,
        of np_interp 10 22 True] none offgrid_data offgrid_lengths rows
    by blast
qed

lemma append_data_quantities: "append_data df vds qn e = Inr e' \<Longrightarrow> quantities e' = quantities e"
  by (auto simp: append_data_def split: option.splits)

lemma build_interpolators_quantities: "quantities (fst (build_interpolators R e)) = quantities e"
  by (simp add: build_interpolators_def split: prod.splits option.splits)

lemma reachable_quantities: "reachable R e \<Longrightarrow> quantities e = [''id_w'', ''gmro'', ''ft'']"
  by (induction rule: reachable.induct)
     (simp_all add: init_def append_data_quantities build_interpolators_quantities)

text \<open>
  C7. \<open>predict\<close> called with a quantity name outside \<open>id_w\<close>, \<open>gmro\<close>, \<open>ft\<close> fails with
  the unknown-quantity error and returns no value, for every other argument: on every engine
  whose list of canonical names is the one the constructor sets, and so on every engine
  reached from the constructor by loading and rebuilding, whatever was loaded or built.
\<close>

theorem predict_unknown_quantity:
  assumes "q \<noteq> ''id_w''" and "q \<noteq> ''gmro''" and "q \<noteq> ''ft''"
  shows "(quantities e = [''id_w'', ''gmro'', ''ft''] \<longrightarrow>
            predict e q g vds l = Inl (ValueError Unknown_quantity)) \<and>
         (reachable R e \<longrightarrow> predict e q g vds l = Inl (ValueError Unknown_quantity))"
  using assms reachable_quantities [of R e] by (auto simp: predict_def)

lemma sample_reachable: "reachable mean_rbf sample_engine"
proof -
  let ?e0 = "init ''thin_plate_spline'' None"
  have a1: "append_data sample_0p2 (1 / 5) ''gmro'' ?e0 = Inr (loaded sample_0p2 (1 / 5) ''gmro'' ?e0)"
    by (simp add: loaded_def append_data_def init_def empty_planes_def)
  have a2: "append_data sample_0p4 (2 / 5) ''gmro'' (loaded sample_0p2 (1 / 5) ''gmro'' ?e0) =
      Inr (loaded sample_0p4 (2 / 5) ''gmro'' (loaded sample_0p2 (1 / 5) ''gmro'' ?e0))"
    by (simp add: loaded_def append_data_def init_def empty_planes_def)
  have "reachable mean_rbf (loaded sample_0p2 (1 / 5) ''gmro'' ?e0)"
    by (rule reachable_append [OF reachable_init a1])
  then have "reachable mean_rbf (loaded sample_0p4 (2 / 5) ''gmro'' (loaded sample_0p2 (1 / 5) ''gmro'' ?e0))"
    by (rule reachable_append [OF _ a2])
  then show ?thesis
    unfolding sample_engine_def by (rule reachable_build)
qed

theorem predict_unknown_quantity_witness:
  "''vth'' \<noteq> ''id_w'' \<and> ''vth'' \<noteq> ''gmro'' \<and> ''vth'' \<noteq> ''ft'' \<and>
   reachable mean_rbf sample_engine \<and>
   predict sample_engine ''vth'' 10 (2 / 5) 500 = Inl (ValueError Unknown_quantity) \<and>
   predict (init ''thin_plate_spline'' None) ''vth'' 10 (2 / 5) 500 =
     Inl (ValueError Unknown_quantity)"
proof -
  have h: "''vth'' \<noteq> ''id_w''" "''vth'' \<noteq> ''gmro''" "''vth'' \<noteq> ''ft''" by simp_all
  have i: "quantities (init ''thin_plate_spline'' None) = [''id_w'', ''gmro'', ''ft'']"
    by (simp add: init_def)
  show ?thesis
    using predict_unknown_quantity [OF h, of sample_engine 10 "2 / 5" 500 mean_rbf]
      predict_unknown_quantity [OF h, of "init ''thin_plate_spline'' None" 10 "2 / 5" 500 mean_rbf]
      sample_reachable i h
    by blast
qed

lemma estimate_ignores_rbf:
  "estimate_length_from_gmro A I (e\<lparr>rbf := r\<rparr>) g m vds rc =
   estimate_length_from_gmro A I e g m vds rc"
  by (simp add: estimate_length_from_gmro_def gmro_pred_at_def cong: option.case_cong if_cong)

text \<open>
  C4, for computed distances. The plane used for reconstruction is a bias of the raw gmro tables whose
  computed distance \<open>abs(x - vds_req)\<close> from the query bias, a rounded float difference, is
  least, the lowest such bias when several have that computed distance; the fitted
  interpolants play no part in the estimation. The plane need not be the one nearest in
  exact arithmetic.
\<close>

theorem snap_to_nearest_raw_plane:
  assumes "data e ''gmro'' = Some planes" and "planes \<noteq> []"
  shows "\<exists>p df. snap_plane A planes vds = Inr p \<and> map_of planes p = Some df \<and>
           (\<forall>x\<in>fst ` set planes.
              \<bar>fsub A p vds\<bar> \<le> \<bar>fsub A x vds\<bar> \<and>
              (\<bar>fsub A x vds\<bar> = \<bar>fsub A p vds\<bar> \<longrightarrow> p \<le> x)) \<and>
           (\<forall>Ls. lengths e = Some Ls \<longrightarrow>
              gmro_pred_at A I e g vds =
                (if reconstruct I g df Ls [] = [] then Inl (ValueError (No_gmro_at_plane p))
                 else Inr (reconstruct I g df Ls []))) \<and>
           (\<forall>r. estimate_length_from_gmro A I (e\<lparr>rbf := r\<rparr>) g m vds rc =
                  estimate_length_from_gmro A I e g m vds rc)"
proof -
  from snap_plane_nearest [OF assms(2), of A vds] obtain p where
    p: "snap_plane A planes vds = Inr p" "p \<in> fst ` set planes"
       "\<forall>x\<in>fst ` set planes.
          \<bar>fsub A p vds\<bar> \<le> \<bar>fsub A x vds\<bar> \<and>
          (\<bar>fsub A x vds\<bar> = \<bar>fsub A p vds\<bar> \<longrightarrow> p \<le> x)"
    by blast
  from dict_get_key [OF p(2)] obtain df where df: "map_of planes p = Some df" by blast
  have "gmro_pred_at A I e g vds =
          (if reconstruct I g df Ls [] = [] then Inl (ValueError (No_gmro_at_plane p))
           else Inr (reconstruct I g df Ls []))" if "lengths e = Some Ls" for Ls
    using assms that p(1) df by (simp add: gmro_pred_at_def dict_get_def)
  with p(1,3) df show ?thesis by (auto simp: estimate_ignores_rbf)
qed

lemma tie_planes:
  "data tie_engine ''gmro'' =
     Some [(5404319552844595 / 2 ^ 55, dropna sample_0p2),
           (5854679515581645 / 2 ^ 53, dropna sample_0p4)]"
  by (simp add: tie_engine_def build_interpolators_def loaded_def sample_0p2_def sample_0p4_def
      append_data_def init_def empty_planes_def raw_def mean_rbf_def)

lemma tie_lengths: "lengths tie_engine = Some [500, 700]"
  by (simp add: tie_engine_def build_interpolators_def loaded_def sample_0p2_def sample_0p4_def
      append_data_def init_def empty_planes_def raw_def mean_rbf_def py_int_def)

lemma tie_distances:
  "\<bar>fsub double_arith (5404319552844595 / 2 ^ 55) (3602879701896397 / 2 ^ 53)\<bar> = 1 / 4"
  "\<bar>fsub double_arith (5854679515581645 / 2 ^ 53) (3602879701896397 / 2 ^ 53)\<bar> = 1 / 4"
  by (simp_all add: ieee_simps)

lemma tie_snap:
  "snap_plane double_arith
     [(5404319552844595 / 2 ^ 55, dropna sample_0p2),
      (5854679515581645 / 2 ^ 53, dropna sample_0p4)]
     (3602879701896397 / 2 ^ 53) = Inr (5404319552844595 / 2 ^ 55)"
  by (simp add: snap_plane_def ieee_simps)

lemma tie_pred:
  "gmro_pred_at double_arith np_interp tie_engine 10 (3602879701896397 / 2 ^ 53) =
     Inr [(500, 20), (700, 24)]"
  by (simp add: gmro_pred_at_def tie_planes tie_lengths snap_plane_def ieee_simps dict_get_def
      raw_def np_interp_def sample_0p2_def sample_0p4_def)

theorem snap_to_nearest_raw_plane_counterexample:
  "data tie_engine ''gmro'' =
     Some [(5404319552844595 / 2 ^ 55, dropna sample_0p2),
           (5854679515581645 / 2 ^ 53, dropna sample_0p4)] \<and>
   snap_plane double_arith
     [(5404319552844595 / 2 ^ 55, dropna sample_0p2),
      (5854679515581645 / 2 ^ 53, dropna sample_0p4)]
     (3602879701896397 / 2 ^ 53) = Inr (5404319552844595 / 2 ^ 55) \<and>
   gmro_pred_at double_arith np_interp tie_engine 10 (3602879701896397 / 2 ^ 53) =
     Inr [(500, 20), (700, 24)] \<and>
   \<bar>5854679515581645 / 2 ^ 53 - 3602879701896397 / 2 ^ 53\<bar> <
     \<bar>5404319552844595 / 2 ^ 55 - 3602879701896397 / (2 ^ 53 :: real)\<bar>"
  using tie_planes tie_snap tie_pred by simp

theorem snap_to_nearest_raw_plane_witness:
  "data tie_engine ''gmro'' =
     Some [(5404319552844595 / 2 ^ 55, dropna sample_0p2),
           (5854679515581645 / 2 ^ 53, dropna sample_0p4)] \<and>
   \<bar>fsub double_arith (5404319552844595 / 2 ^ 55) (3602879701896397 / 2 ^ 53)\<bar> =
     \<bar>fsub double_arith (5854679515581645 / 2 ^ 53) (3602879701896397 / 2 ^ 53)\<bar> \<and>
   snap_plane double_arith
     [(5404319552844595 / 2 ^ 55, dropna sample_0p2),
      (5854679515581645 / 2 ^ 53, dropna sample_0p4)]
     (3602879701896397 / 2 ^ 53) = Inr (5404319552844595 / 2 ^ 55) \<and>
   gmro_pred_at double_arith np_interp tie_engine 10 (3602879701896397 / 2 ^ 53) =
     Inr [(500, 20), (700, 24)]"
proof -
  let ?a = "5404319552844595 / 2 ^ 55 :: real" and ?b = "5854679515581645 / 2 ^ 53 :: real"
  let ?v = "3602879701896397 / 2 ^ 53 :: real"
  let ?planes = "[(?a, dropna sample_0p2),
                  (?b, dropna sample_0p4)]"
  have ne: "?planes \<noteq> []" by simp
  from snap_to_nearest_raw_plane [OF tie_planes ne, of double_arith ?v np_interp 10 35 True]
  obtain p df where
    p: "snap_plane double_arith ?planes ?v = Inr p" "map_of ?planes p = Some df"
       "\<forall>x\<in>fst ` set ?planes.
          \<bar>fsub double_arith p ?v\<bar> \<le> \<bar>fsub double_arith x ?v\<bar> \<and>
          (\<bar>fsub double_arith x ?v\<bar> = \<bar>fsub double_arith p ?v\<bar> \<longrightarrow> p \<le> x)"
       "\<forall>Ls. lengths tie_engine = Some Ls \<longrightarrow>
          gmro_pred_at double_arith np_interp tie_engine 10 ?v =
            (if reconstruct np_interp 10 df Ls [] = [] then Inl (ValueError (No_gmro_at_plane p))
             else Inr (reconstruct np_interp 10 df Ls []))"
    by blast
  have cases: "p = ?a \<or> p = ?b" using p(2) by (auto split: if_splits)
  have tie: "\<bar>fsub double_arith ?a ?v\<bar> = \<bar>fsub double_arith ?b ?v\<bar>"
    by (simp only: tie_distances)
  have p_eq: "p = ?a"
  proof (rule ccontr)
    assume "p \<noteq> ?a"
    with cases have pb: "p = ?b" by simp
    have "?a \<in> fst ` set ?planes" by simp
    with p(3) have "\<bar>fsub double_arith ?a ?v\<bar> = \<bar>fsub double_arith p ?v\<bar> \<longrightarrow> p \<le> ?a"
      by blast
    then have "\<bar>fsub double_arith ?a ?v\<bar> = \<bar>fsub double_arith ?b ?v\<bar> \<longrightarrow> ?b \<le> ?a"
      by (simp only: pb)
    with tie have "?b \<le> ?a" by blast
    then show False by simp
  qed
  then have df: "df = dropna sample_0p2" using p(2) by simp
  have pred: "gmro_pred_at double_arith np_interp tie_engine 10 ?v = Inr [(500, 20), (700, 24)]"
    using p(4) tie_lengths by (simp add: df raw_def np_interp_def sample_0p2_def)
  show ?thesis using tie_planes tie p(1) p_eq pred by simp
qed

lemma available_vds_set [simp]: "set (available_vds planes) = fst ` set planes"
  by (simp add: available_vds_def)

lemma available_vds_sorted [simp]: "sorted (available_vds planes)"
  by (simp add: available_vds_def)

lemma available_vds_nonempty: "planes \<noteq> [] \<Longrightarrow> available_vds planes \<noteq> []"
  by (cases planes) (auto simp: available_vds_def sort_key_def)

lemma sorted_hd_least: "sorted xs \<Longrightarrow> x \<in> set xs \<Longrightarrow> hd xs \<le> (x::real)"
  by (cases xs) auto

lemma sorted_last_greatest: "sorted xs \<Longrightarrow> x \<in> set xs \<Longrightarrow> (x::real) \<le> last xs"
  by (induction xs) (auto split: if_splits)

lemma hd_available_vds:
  assumes "planes \<noteq> []"
  shows "hd (available_vds planes) = Min (fst ` set planes)"
proof -
  have ne: "available_vds planes \<noteq> []" using assms by (rule available_vds_nonempty)
  then have "hd (available_vds planes) \<in> fst ` set planes"
    using hd_in_set [OF ne] by simp
  moreover have "\<forall>y\<in>fst ` set planes. hd (available_vds planes) \<le> y"
  proof
    fix y assume "y \<in> fst ` set planes"
    then have "y \<in> set (available_vds planes)" by simp
    then show "hd (available_vds planes) \<le> y"
      by (rule sorted_hd_least [OF available_vds_sorted])
  qed
  ultimately have "Min (fst ` set planes) = hd (available_vds planes)"
    by (intro Min_eqI) auto
  then show ?thesis by simp
qed

lemma last_available_vds:
  assumes "planes \<noteq> []"
  shows "last (available_vds planes) = Max (fst ` set planes)"
proof -
  have ne: "available_vds planes \<noteq> []" using assms by (rule available_vds_nonempty)
  then have "last (available_vds planes) \<in> fst ` set planes"
    using last_in_set [OF ne] by simp
  moreover have "\<forall>y\<in>fst ` set planes. y \<le> last (available_vds planes)"
  proof
    fix y assume "y \<in> fst ` set planes"
    then have "y \<in> set (available_vds planes)" by simp
    then show "y \<le> last (available_vds planes)"
      by (rule sorted_last_greatest [OF available_vds_sorted])
  qed
  ultimately have "Max (fst ` set planes) = last (available_vds planes)"
    by (intro Max_eqI) auto
  then show ?thesis by simp
qed

lemma plane_at_key:
  "map_of planes v = Some f \<Longrightarrow> plane_at planes v g l = Inr (f g l)"
  by (simp add: plane_at_def dict_get_def)

lemma predict_exact:
  assumes "q \<in> set (quantities e)" and "rbf e q = Some planes" and "map_of planes x = Some f"
  shows "predict e q g x l = Inr (f g l)"
proof -
  have "x \<in> fst ` set planes" using assms(3) by (force dest: map_of_SomeD)
  then have "planes \<noteq> []" by auto
  then have "available_vds planes \<noteq> []" by (rule available_vds_nonempty)
  then show ?thesis
    using assms by (simp add: predict_def interp_in_vds_def plane_at_key)
qed

lemma predict_below:
  assumes "q \<in> set (quantities e)" and "rbf e q = Some planes" and "planes \<noteq> []"
    and "x < Min (fst ` set planes)"
  shows "\<exists>f. map_of planes (Min (fst ` set planes)) = Some f \<and> predict e q g x l = Inr (f g l)"
proof -
  let ?lo = "Min (fst ` set planes)"
  have ne: "available_vds planes \<noteq> []" using assms(3) by (rule available_vds_nonempty)
  have hd: "hd (available_vds planes) = ?lo" using assms(3) by (rule hd_available_vds)
  have "?lo \<in> fst ` set planes" using assms(3) by (intro Min_in) auto
  from dict_get_key [OF this] obtain f where f: "map_of planes ?lo = Some f" by blast
  have "x \<notin> fst ` set planes"
  proof
    assume "x \<in> fst ` set planes"
    then have "?lo \<le> x" by simp
    with assms(4) show False by simp
  qed
  then have "map_of planes x = None" by (simp add: map_of_eq_None_iff)
  then have "predict e q g x l = Inr (f g l)"
    using assms(1,2,4) ne hd f by (simp add: predict_def interp_in_vds_def plane_at_key)
  with f show ?thesis by blast
qed

lemma predict_above:
  assumes "q \<in> set (quantities e)" and "rbf e q = Some planes" and "planes \<noteq> []"
    and "Max (fst ` set planes) < x"
  shows "\<exists>f. map_of planes (Max (fst ` set planes)) = Some f \<and> predict e q g x l = Inr (f g l)"
proof -
  let ?lo = "Min (fst ` set planes)" and ?hi = "Max (fst ` set planes)"
  have ne: "available_vds planes \<noteq> []" using assms(3) by (rule available_vds_nonempty)
  have hd: "hd (available_vds planes) = ?lo" using assms(3) by (rule hd_available_vds)
  have last: "last (available_vds planes) = ?hi" using assms(3) by (rule last_available_vds)
  have "?hi \<in> fst ` set planes" using assms(3) by (intro Max_in) auto
  from dict_get_key [OF this] obtain f where f: "map_of planes ?hi = Some f" by blast
  have "?lo \<le> ?hi" using assms(3) by (intro Min_le Max_in) auto
  with assms(4) have nlt: "\<not> x < ?lo" by simp
  have "x \<notin> fst ` set planes"
  proof
    assume "x \<in> fst ` set planes"
    then have "x \<le> ?hi" by simp
    with assms(4) show False by simp
  qed
  then have "map_of planes x = None" by (simp add: map_of_eq_None_iff)
  then have "predict e q g x l = Inr (f g l)"
    using assms(1,2,4) ne hd last f nlt
    by (simp add: predict_def interp_in_vds_def plane_at_key)
  with f show ?thesis by blast
qed

text \<open>
  C3. For a quantity with at least one built plane, a query bias below the least plane bias
  gives the value of the least plane's interpolant, the same as \<open>predict\<close> at the least
  bias; a query bias above the greatest plane bias gives the greatest plane's; a query bias
  equal to a plane's bias gives that plane's.
\<close>

theorem predict_clamps_and_matches:
  assumes "q \<in> set (quantities e)" and "rbf e q = Some planes" and "planes \<noteq> []"
  shows "(x < Min (fst ` set planes) \<longrightarrow>
            (\<exists>f. map_of planes (Min (fst ` set planes)) = Some f \<and>
                 predict e q g x l = Inr (f g l)) \<and>
            predict e q g x l = predict e q g (Min (fst ` set planes)) l) \<and>
         (Max (fst ` set planes) < x \<longrightarrow>
            (\<exists>f. map_of planes (Max (fst ` set planes)) = Some f \<and>
                 predict e q g x l = Inr (f g l)) \<and>
            predict e q g x l = predict e q g (Max (fst ` set planes)) l) \<and>
         (\<forall>f. map_of planes x = Some f \<longrightarrow> predict e q g x l = Inr (f g l))"
proof (intro conjI impI allI)
  assume "x < Min (fst ` set planes)"
  from predict_below [OF assms this] obtain f where
    f: "map_of planes (Min (fst ` set planes)) = Some f" "predict e q g x l = Inr (f g l)"
    by blast
  then show "\<exists>f. map_of planes (Min (fst ` set planes)) = Some f \<and>
                 predict e q g x l = Inr (f g l)" by blast
  show "predict e q g x l = predict e q g (Min (fst ` set planes)) l"
    using f predict_exact [OF assms(1,2) f(1)] by simp
next
  assume "Max (fst ` set planes) < x"
  from predict_above [OF assms this] obtain f where
    f: "map_of planes (Max (fst ` set planes)) = Some f" "predict e q g x l = Inr (f g l)"
    by blast
  then show "\<exists>f. map_of planes (Max (fst ` set planes)) = Some f \<and>
                 predict e q g x l = Inr (f g l)" by blast
  show "predict e q g x l = predict e q g (Max (fst ` set planes)) l"
    using f predict_exact [OF assms(1,2) f(1)] by simp
next
  fix f assume "map_of planes x = Some f"
  then show "predict e q g x l = Inr (f g l)" by (rule predict_exact [OF assms(1,2)])
qed

theorem predict_clamps_and_matches_witness:
  "''gmro'' \<in> set (quantities sample_engine) \<and>
   rbf sample_engine ''gmro'' = Some [(1 / 5, \<lambda>g l. 26), (2 / 5, \<lambda>g l. 45)] \<and>
   (1 / 10 :: real) <
     Min (fst ` set ([(1 / 5, \<lambda>g l. 26), (2 / 5, \<lambda>g l. 45)] :: (real \<times> interpolant) list)) \<and>
   predict sample_engine ''gmro'' 10 (1 / 10) 500 = Inr 26 \<and>
   predict sample_engine ''gmro'' 10 (1 / 10) 500 = predict sample_engine ''gmro'' 10 (1 / 5) 500 \<and>
   predict sample_engine ''gmro'' 10 (9 / 10) 500 = Inr 45 \<and>
   predict sample_engine ''gmro'' 10 (2 / 5) 500 = Inr 45"
proof -
  let ?planes = "[(1 / 5, \<lambda>g l. 26), (2 / 5, \<lambda>g l. 45)] :: (real \<times> interpolant) list"
  have h1: "''gmro'' \<in> set (quantities sample_engine)" by (simp add: sample_quantities)
  have h3: "?planes \<noteq> []" by simp
  have lo: "Min (fst ` set ?planes) = 1 / 5" by simp
  have hi: "Max (fst ` set ?planes) = 2 / 5" by simp
  have lt: "(1 / 10 :: real) < Min (fst ` set ?planes)" by simp
  have gt: "Max (fst ` set ?planes) < (9 / 10 :: real)" by simp
  have at: "map_of ?planes (2 / 5) = Some (\<lambda>g l. 45)" by simp
  from predict_clamps_and_matches [OF h1 sample_rbf h3, of "1 / 10" 10 500] lt
  have below: "(\<exists>f. map_of ?planes (Min (fst ` set ?planes)) = Some f \<and>
                    predict sample_engine ''gmro'' 10 (1 / 10) 500 = Inr (f 10 500)) \<and>
               predict sample_engine ''gmro'' 10 (1 / 10) 500 =
                 predict sample_engine ''gmro'' 10 (Min (fst ` set ?planes)) 500"
    by blast
  have a: "predict sample_engine ''gmro'' 10 (1 / 10) 500 = Inr 26"
    using below by (auto simp: lo)
  have a': "predict sample_engine ''gmro'' 10 (1 / 10) 500 =
            predict sample_engine ''gmro'' 10 (1 / 5) 500"
    using below by (simp only: lo)
  from predict_clamps_and_matches [OF h1 sample_rbf h3, of "9 / 10" 10 500] gt
  have "\<exists>f. map_of ?planes (Max (fst ` set ?planes)) = Some f \<and>
             predict sample_engine ''gmro'' 10 (9 / 10) 500 = Inr (f 10 500)"
    by blast
  then have b: "predict sample_engine ''gmro'' 10 (9 / 10) 500 = Inr 45"
    by (auto simp: hi)
  from predict_clamps_and_matches [OF h1 sample_rbf h3, of "2 / 5" 10 500] at
  have c: "predict sample_engine ''gmro'' 10 (2 / 5) 500 = Inr 45"
    by blast
  show ?thesis using h1 sample_rbf lt a a' b c by blast
qed

lemma find_bounds_adjacent:
  assumes "sorted (pre @ v1 # v2 # post)" and "v1 < vds" and "vds < v2"
  shows "find_bounds (pre @ v1 # v2 # post) vds = Some (v1, v2)"
  using assms
proof (induction pre)
  case Nil
  then show ?case by simp
next
  case (Cons a pre)
  have IH: "find_bounds (pre @ v1 # v2 # post) vds = Some (v1, v2)"
    using Cons by simp
  show ?case
  proof (cases pre)
    case Nil
    with Cons.prems show ?thesis by simp
  next
    case (Cons b pre')
    have "b \<le> v1" using Cons.prems(1) Cons by (simp add: sorted_append)
    with Cons.prems(2) have "\<not> vds \<le> b" by simp
    with IH Cons show ?thesis by simp
  qed
qed

lemma between_adjacent_not_member:
  assumes "sorted (pre @ v1 # v2 # post)" and "v1 < vds" and "vds < v2"
  shows "vds \<notin> set (pre @ v1 # v2 # post)"
proof
  assume "vds \<in> set (pre @ v1 # v2 # post)"
  then consider "vds \<in> set pre" | "vds = v1" | "vds = v2" | "vds \<in> set post" by auto
  then show False
  proof cases
    case 1
    then have "vds \<le> v1" using assms(1) by (simp add: sorted_append)
    with assms(2) show False by simp
  next
    case 2 with assms(2) show False by simp
  next
    case 3 with assms(3) show False by simp
  next
    case 4
    then have "v2 \<le> vds" using assms(1) by (simp add: sorted_append)
    with assms(3) show False by simp
  qed
qed

lemma predict_between:
  assumes q: "q \<in> set (quantities e)" and r: "rbf e q = Some planes"
    and adj: "available_vds planes = pre @ v1 # v2 # post"
    and f1: "map_of planes v1 = Some f1" and f2: "map_of planes v2 = Some f2"
    and lo: "v1 < vds" and hi: "vds < v2"
  shows "predict e q g vds l = Inr (f1 g l + (vds - v1) / (v2 - v1) * (f2 g l - f1 g l))"
proof -
  have srt: "sorted (pre @ v1 # v2 # post)" by (metis available_vds_sorted adj)
  have ne: "available_vds planes \<noteq> []" using adj by simp
  have "vds \<notin> set (available_vds planes)"
    using between_adjacent_not_member [OF srt lo hi] adj by simp
  then have none: "map_of planes vds = None" by (simp add: map_of_eq_None_iff)
  have "hd (pre @ v1 # v2 # post) \<le> v1"
    by (rule sorted_hd_least [OF srt]) simp
  then have "hd (available_vds planes) \<le> v1" by (simp only: adj)
  with lo have nlt: "\<not> vds < hd (available_vds planes)" by simp
  have "v2 \<le> last (pre @ v1 # v2 # post)"
    by (rule sorted_last_greatest [OF srt]) simp
  then have "v2 \<le> last (available_vds planes)" by (simp only: adj)
  with hi have ngt: "\<not> last (available_vds planes) < vds" by simp
  have fb: "find_bounds (available_vds planes) vds = Some (v1, v2)"
    using find_bounds_adjacent [OF srt lo hi] adj by simp
  have dv: "py_div (vds - v1) (v2 - v1) = Inr ((vds - v1) / (v2 - v1))"
    using lo hi by (simp add: py_div_def)
  show ?thesis
    using q r ne none nlt ngt fb dv f1 f2
    by (simp add: predict_def interp_in_vds_def plane_at_key)
qed

text \<open>
  C2. For a quantity with two adjacent plane biases \<open>v1 < v2\<close> and a query bias strictly
  between them, \<open>predict\<close> returns \<open>y1 + t * (y2 - y1)\<close> with
  \<open>t = (bias - v1) / (v2 - v1)\<close>, where \<open>y1\<close>, \<open>y2\<close> are the two planes' interpolants at
  the query point, which are also what \<open>predict\<close> returns at \<open>v1\<close> and \<open>v2\<close>; hence
  \<open>predict\<close> at \<open>v1 + t * (v2 - v1)\<close> is \<open>(1 - t) * y1 + t * y2\<close> for \<open>t\<close> from 0 to 1.
\<close>

theorem predict_blends_linearly:
  assumes "q \<in> set (quantities e)" and "rbf e q = Some planes"
    and "available_vds planes = pre @ v1 # v2 # post" and "v1 < v2"
  shows "\<exists>f1 f2. map_of planes v1 = Some f1 \<and> map_of planes v2 = Some f2 \<and>
           predict e q g v1 l = Inr (f1 g l) \<and> predict e q g v2 l = Inr (f2 g l) \<and>
           (\<forall>vds. v1 < vds \<and> vds < v2 \<longrightarrow>
              predict e q g vds l =
                Inr (f1 g l + (vds - v1) / (v2 - v1) * (f2 g l - f1 g l))) \<and>
           (\<forall>t. 0 \<le> t \<and> t \<le> 1 \<longrightarrow>
              predict e q g (v1 + t * (v2 - v1)) l = Inr ((1 - t) * f1 g l + t * f2 g l))"
proof -
  have "v1 \<in> set (available_vds planes)" and "v2 \<in> set (available_vds planes)"
    using assms(3) by simp_all
  then have "v1 \<in> fst ` set planes" and "v2 \<in> fst ` set planes" by simp_all
  then obtain f1 f2 where f1: "map_of planes v1 = Some f1" and f2: "map_of planes v2 = Some f2"
    using dict_get_key [of v1 planes] dict_get_key [of v2 planes] by blast
  have p1: "predict e q g v1 l = Inr (f1 g l)" by (rule predict_exact [OF assms(1,2) f1])
  have p2: "predict e q g v2 l = Inr (f2 g l)" by (rule predict_exact [OF assms(1,2) f2])
  have mid: "predict e q g vds l = Inr (f1 g l + (vds - v1) / (v2 - v1) * (f2 g l - f1 g l))"
    if "v1 < vds" and "vds < v2" for vds
    using predict_between [OF assms(1-3) f1 f2 that] .
  have blend: "predict e q g (v1 + t * (v2 - v1)) l = Inr ((1 - t) * f1 g l + t * f2 g l)"
    if t: "0 \<le> t" "t \<le> 1" for t
  proof -
    consider "t = 0" | "t = 1" | "0 < t" "t < 1" using t by fastforce
    then show ?thesis
    proof cases
      case 1 then show ?thesis using p1 by simp
    next
      case 2 then show ?thesis using p2 by simp
    next
      case 3
      have d: "0 < v2 - v1" using assms(4) by simp
      have lo: "v1 < v1 + t * (v2 - v1)" using 3(1) d by simp
      have "t * (v2 - v1) < 1 * (v2 - v1)" using 3(2) d by (simp only: mult_strict_right_mono)
      then have hi: "v1 + t * (v2 - v1) < v2" by simp
      have "(v1 + t * (v2 - v1) - v1) / (v2 - v1) = t" using d by simp
      then have "predict e q g (v1 + t * (v2 - v1)) l = Inr (f1 g l + t * (f2 g l - f1 g l))"
        using mid [OF lo hi] by simp
      then show ?thesis by (simp add: algebra_simps)
    qed
  qed
  from f1 f2 p1 p2 mid blend show ?thesis by blast
qed

theorem predict_blends_linearly_witness:
  "''gmro'' \<in> set (quantities sample_engine) \<and>
   rbf sample_engine ''gmro'' = Some [(1 / 5, \<lambda>g l. 26), (2 / 5, \<lambda>g l. 45)] \<and>
   available_vds ([(1 / 5, \<lambda>g l. 26), (2 / 5, \<lambda>g l. 45)] :: (real \<times> interpolant) list) =
     [] @ 1 / 5 # 2 / 5 # [] \<and>
   predict sample_engine ''gmro'' 10 (3 / 10) 500 = Inr (71 / 2) \<and>
   predict sample_engine ''gmro'' 10 (1 / 4) 500 = Inr (123 / 4) \<and>
   predict sample_engine ''gmro'' 10 (1 / 5 + 1 / 4 * (2 / 5 - 1 / 5)) 500 =
     Inr ((1 - 1 / 4) * 26 + 1 / 4 * 45)"
proof -
  let ?planes = "[(1 / 5, \<lambda>g l. 26), (2 / 5, \<lambda>g l. 45)] :: (real \<times> interpolant) list"
  have h1: "''gmro'' \<in> set (quantities sample_engine)" by (simp add: sample_quantities)
  have h3: "available_vds ?planes = [] @ 1 / 5 # 2 / 5 # []" by (simp add: available_vds_def)
  have h4: "(1 / 5 :: real) < 2 / 5" by simp
  from predict_blends_linearly [OF h1 sample_rbf h3 h4, of 10 500] obtain f1 f2 where
    f: "map_of ?planes (1 / 5) = Some f1" "map_of ?planes (2 / 5) = Some f2"
    and mid: "\<forall>vds. 1 / 5 < vds \<and> vds < 2 / 5 \<longrightarrow>
      predict sample_engine ''gmro'' 10 vds 500 =
        Inr (f1 10 500 + (vds - 1 / 5) / (2 / 5 - 1 / 5) * (f2 10 500 - f1 10 500))"
    and blend: "\<forall>t. 0 \<le> t \<and> t \<le> 1 \<longrightarrow>
      predict sample_engine ''gmro'' 10 (1 / 5 + t * (2 / 5 - 1 / 5)) 500 =
        Inr ((1 - t) * f1 10 500 + t * f2 10 500)"
    by blast
  have v: "f1 10 500 = 26" "f2 10 500 = 45" using f by auto
  have a: "predict sample_engine ''gmro'' 10 (3 / 10) 500 = Inr (71 / 2)"
    using mid [rule_format, of "3 / 10"] v by simp
  have b: "predict sample_engine ''gmro'' 10 (1 / 4) 500 = Inr (123 / 4)"
    using mid [rule_format, of "1 / 4"] v by simp
  have c: "predict sample_engine ''gmro'' 10 (1 / 5 + 1 / 4 * (2 / 5 - 1 / 5)) 500 =
     Inr ((1 - 1 / 4) * 26 + 1 / 4 * 45)"
    using blend [rule_format, of "1 / 4"] v by simp
  show ?thesis using h1 sample_rbf h3 a b c by blast
qed

lemma build_interpolators_twice:
  "build_interpolators R (fst (build_interpolators R e)) = build_interpolators R e"
proof -
  obtain err rbm S where
    run: "build_quantities R (kernel' e) (epsilon e) (data e) (quantities e)
            (empty_planes (quantities e)) [] = (err, rbm, S)"
    by (metis prod_cases3)
  show ?thesis
  proof (cases err)
    case None
    then show ?thesis using run by (cases "S = []") (simp_all add: build_interpolators_def)
  next
    case (Some x)
    then show ?thesis using run by (simp add: build_interpolators_def)
  qed
qed

text \<open>
  C8. Rebuilding an engine that was just rebuilt changes nothing: the engine, and with it
  every answer of \<open>predict\<close> and the list of lengths, is the one the first rebuild left, and
  the second rebuild ends as the first did.
\<close>

theorem rebuild_idempotent:
  "build_interpolators R (fst (build_interpolators R e)) = build_interpolators R e \<and>
   predict (fst (build_interpolators R (fst (build_interpolators R e)))) q g vds l =
     predict (fst (build_interpolators R e)) q g vds l \<and>
   lengths (fst (build_interpolators R (fst (build_interpolators R e)))) =
     lengths (fst (build_interpolators R e))"
  by (simp add: build_interpolators_twice)

theorem rebuild_idempotent_witness:
  "build_interpolators mean_rbf sample_engine = (sample_engine, None) \<and>
   predict (fst (build_interpolators mean_rbf sample_engine)) ''gmro'' 10 (3 / 10) 500 =
     Inr (71 / 2) \<and>
   lengths (fst (build_interpolators mean_rbf sample_engine)) = Some [500, 700]"
proof -
  let ?e = "loaded sample_0p4 (2 / 5) ''gmro''
              (loaded sample_0p2 (1 / 5) ''gmro'' (init ''thin_plate_spline'' None))"
  have "snd (build_interpolators mean_rbf ?e) = None"
    unfolding sample_loaded
    by (simp add: build_interpolators_def empty_planes_def mean_rbf_def)
  then have first: "build_interpolators mean_rbf ?e = (sample_engine, None)"
    by (simp add: sample_engine_def prod_eq_iff)
  have twice: "build_interpolators mean_rbf (fst (build_interpolators mean_rbf ?e)) =
      build_interpolators mean_rbf ?e"
    using rebuild_idempotent [of mean_rbf ?e] by (rule conjunct1)
  have se: "fst (build_interpolators mean_rbf ?e) = sample_engine"
    by (simp only: sample_engine_def)
  have again: "build_interpolators mean_rbf sample_engine = (sample_engine, None)"
    by (metis twice se first)
  have p: "predict sample_engine ''gmro'' 10 (3 / 10) 500 = Inr (71 / 2)"
    by (simp add: predict_def interp_in_vds_def sample_quantities sample_rbf available_vds_def
        plane_at_def dict_get_def py_div_def)
  show ?thesis using again p sample_lengths by simp
qed

end
